theory Spec2Isabelle
  imports Complex_Main "HOL-Library.Sublist"
begin

section \<open>Data model (types.ts)\<close>

text \<open>
  Every TypeScript interface of \<^verbatim>\<open>types.ts\<close> is a record. Isabelle record fields are
  global constants, so a field name that occurs in several interfaces (or clashes with a
  HOL constant) carries a short prefix naming its interface: \<open>cfg_\<close> (Config),
  \<open>run_\<close> (WorkflowRun), \<open>wf_\<close> (WorkflowInfo), \<open>wa_\<close> (WorkflowAnalysis), \<open>ra_\<close>
  (RepositoryAnalysis), \<open>rep_\<close> (AnalysisReport), \<open>sum_\<close> (its summary), \<open>dw_\<close>
  (DisabledWorkflow), \<open>mf_\<close> (DisabledWorkflowsManifest), \<open>ae_\<close> (AuditLogEntry); likewise
  \<open>opt_\<close> for the options of \<^verbatim>\<open>restoreWorkflows\<close>, \<open>flag_\<close> for the flags of the restore
  command and \<open>acc_\<close> for the counters of \<^verbatim>\<open>analyze\<close>. All other fields keep the name
  they have in the source.

  Numbers: counts computed by the program are \<open>nat\<close>; the integer settings of the
  configuration (\<^verbatim>\<open>parseInt\<close> of an environment variable, or the JSON value) and the
  identifiers delivered by the API are \<open>int\<close>; the two percentages computed by a
  floating-point division are \<open>rat\<close>, the exact quotient (the source computes them in
  IEEE-754 binary64; no theorem below depends on a rounded digit). A value of type
  \<^verbatim>\<open>T | null\<close> or an optional field is an \<open>option\<close>.
\<close>

record Config =
  failureThreshold :: int
  failureRateThreshold :: int
  timeWindowDays :: int
  excludeRepositories :: "string list"
  safelistWorkflows :: "string list"
  cfg_dryRun :: bool
  githubToken :: "string option"
  cfg_organization :: string
  maxConcurrentRequests :: int
  backupDirectory :: string

record WorkflowRun =
  run_id :: int
  run_name :: string
  status :: "string option"
  conclusion :: "string option"
  created_at :: string
  updated_at :: string
  run_number :: int
  html_url :: string

record WorkflowInfo =
  wf_name :: string
  wf_path :: string
  wf_state :: string
  wf_id :: int

record WorkflowAnalysis =
  wa_repository :: string
  wa_workflowName :: string
  workflowPath :: string
  workflowId :: int
  totalRuns :: nat
  successfulRuns :: nat
  failedRuns :: nat
  failureRate :: rat
  consecutiveFailures :: nat
  lastRuns :: "WorkflowRun list"
  lastSuccessfulRun :: "WorkflowRun option"
  shouldDisable :: bool
  disableReason :: "string list"
  issues :: "string list"

record RepositoryAnalysis =
  ra_repository :: string
  ra_totalWorkflows :: nat
  ra_failingWorkflows :: nat
  workflows :: "WorkflowAnalysis list"

record Summary =
  sum_totalRuns :: nat
  sum_successfulRuns :: nat
  sum_failedRuns :: nat

record AnalysisReport =
  rep_timestamp :: string
  rep_organization :: string
  totalRepositories :: nat
  rep_totalWorkflows :: nat
  rep_failingWorkflows :: nat
  successRate :: rat
  repositories :: "RepositoryAnalysis list"
  summary :: Summary

text \<open>
  A JavaScript exception: an \<^verbatim>\<open>Error\<close> with its message, and the \<^verbatim>\<open>status\<close>
  property that the HTTP client sets on a failed request (absent on every other error).
\<close>

datatype error = Error (err_status: "int option") (message: string)

section \<open>Rendering numbers in template literals\<close>

definition digit_char :: "nat \<Rightarrow> char" where
  "digit_char d = char_of (of_char (CHR ''0'') + d)"

text \<open>\<^verbatim>\<open>`${n}`\<close> for a non-negative integer: its decimal digits.\<close>

fun show_nat :: "nat \<Rightarrow> string" where
  "show_nat n = (if n < 10 then [digit_char n] else show_nat (n div 10) @ [digit_char (n mod 10)])"

declare show_nat.simps [simp del]

text \<open>\<^verbatim>\<open>`${i}`\<close> for an integer: a minus sign before the digits of a negative one.\<close>

definition show_int :: "int \<Rightarrow> string" where
  "show_int i = (if i < 0 then CHR ''-'' # show_nat (nat (- i)) else show_nat (nat i))"

text \<open>
  \<^verbatim>\<open>x.toFixed(1)\<close> for \<open>x \<ge> 0\<close>: the integer \<open>n\<close> with \<open>n / 10\<close> nearest to \<open>x\<close>, the
  larger one on a tie, printed with one digit after the point.
\<close>

definition toFixed1 :: "rat \<Rightarrow> string" where
  "toFixed1 x = (let n = nat \<lfloor>x * 10 + 1 / 2\<rfloor>
                 in show_nat (n div 10) @ ''.'' @ show_nat (n mod 10))"

section \<open>Strings\<close>

text \<open>
  \<^verbatim>\<open>s.split(c)\<close> for a one-character separator: the pieces between the occurrences of
  \<open>c\<close>; the result is never empty (\<^verbatim>\<open>''.split('/')\<close> is \<^verbatim>\<open>['']\<close>).
\<close>

fun split :: "char \<Rightarrow> string \<Rightarrow> string list" where
  "split c [] = [[]]"
| "split c (x # xs) =
     (if x = c then [] # split c xs
      else (case split c xs of [] \<Rightarrow> [[x]] | s # ss \<Rightarrow> (x # s) # ss))"

text \<open>\<^verbatim>\<open>segments.pop() || ''\<close>: the last piece, the empty string when there is none.\<close>

definition pop_or_empty :: "string list \<Rightarrow> string" where
  "pop_or_empty segs = (if segs = [] then [] else last segs)"

section \<open>The Data Source (github-client.ts)\<close>

text \<open>
  The GitHub API is outside the program: each request the client sends is a field of the
  record below, holding the reply, \<open>Inl\<close> an exception of the HTTP client.
  \<^item> \<open>rateLimit_get\<close>: \<^verbatim>\<open>octokit.rateLimit.get()\<close>, the triple (remaining, limit, reset);
  \<^item> \<open>listForOrg page\<close>: the names on one page of \<^verbatim>\<open>octokit.repos.listForOrg\<close>;
  \<^item> \<open>listRepoWorkflows repo\<close>: \<^verbatim>\<open>octokit.actions.listRepoWorkflows\<close>;
  \<^item> \<open>listWorkflowRuns repo id created\<close>: \<^verbatim>\<open>octokit.actions.listWorkflowRuns\<close>, at
    most 100 runs, most recent first;
  \<^item> \<open>checkWorkflowIssues repo path\<close>: the advisory strings of the analyzer's method of
    that name, which reads the workflow file and parses its YAML; it catches every
    exception and always returns a list;
  \<^item> \<open>sinceDate days\<close>: \<^verbatim>\<open>toISOString()\<close> of the current date moved back by \<open>days\<close>;
  \<^item> \<open>now\<close>: \<^verbatim>\<open>new Date().toISOString()\<close> when the report is assembled.
\<close>

record DataSource =
  rateLimit_get :: "error + (nat \<times> nat \<times> nat)"
  listForOrg :: "nat \<Rightarrow> error + string list"
  listRepoWorkflows :: "string \<Rightarrow> error + WorkflowInfo list"
  listWorkflowRuns :: "string \<Rightarrow> int \<Rightarrow> string \<Rightarrow> error + WorkflowRun list"
  checkWorkflowIssues :: "string \<Rightarrow> string \<Rightarrow> string list"
  sinceDate :: "int \<Rightarrow> string"
  now :: string

text \<open>\<^verbatim>\<open>GitHubClient.getWorkflows\<close>: any failure (404 or other) yields no workflows.\<close>

definition getWorkflows :: "DataSource \<Rightarrow> string \<Rightarrow> WorkflowInfo list" where
  "getWorkflows ds repo =
     (case listRepoWorkflows ds repo of
        Inr ws \<Rightarrow> ws
      | Inl e \<Rightarrow> (if err_status e = Some 404 then [] else []))"

text \<open>\<^verbatim>\<open>GitHubClient.getWorkflowRuns\<close>: any failure yields no runs.\<close>

definition getWorkflowRuns :: "DataSource \<Rightarrow> string \<Rightarrow> int \<Rightarrow> string \<Rightarrow> WorkflowRun list" where
  "getWorkflowRuns ds repo wid created =
     (case listWorkflowRuns ds repo wid created of
        Inr runs \<Rightarrow> runs
      | Inl e \<Rightarrow> [])"

section \<open>Metric engine and classifier (analyzer.ts, analyzeWorkflow)\<close>

definition is_failure :: "WorkflowRun \<Rightarrow> bool" where
  "is_failure r \<longleftrightarrow> conclusion r = Some ''failure'' \<or> conclusion r = Some ''timed_out''"

definition is_success :: "WorkflowRun \<Rightarrow> bool" where
  "is_success r \<longleftrightarrow> conclusion r = Some ''success''"

text \<open>
  The loop \<^verbatim>\<open>for (const run of runs)\<close> over the counter \<^verbatim>\<open>consecutiveFailures\<close>: a
  failed or timed-out run increments it, a successful run leaves the loop, any other run
  goes on to the next iteration.
\<close>

fun consecutive_loop :: "WorkflowRun list \<Rightarrow> nat \<Rightarrow> nat" where
  "consecutive_loop [] n = n"
| "consecutive_loop (run # runs) n =
     (if is_failure run then consecutive_loop runs (n + 1)
      else if is_success run then n
      else consecutive_loop runs n)"

text \<open>
  What the specification says the counter is: the number of failed or timed-out runs
  before the first successful one.
\<close>

definition failures_before_first_success :: "WorkflowRun list \<Rightarrow> nat" where
  "failures_before_first_success runs =
     length (filter is_failure (takeWhile (\<lambda>r. \<not> is_success r) runs))"

text \<open>
  The run history the analyzer fetches for a workflow: the runs created in the window
  \<^verbatim>\<open>`>=${sinceDate.toISOString()}`\<close>.
\<close>

definition runsInWindow :: "Config \<Rightarrow> DataSource \<Rightarrow> string \<Rightarrow> WorkflowInfo \<Rightarrow> WorkflowRun list" where
  "runsInWindow cfg ds repo workflow =
     getWorkflowRuns ds repo (wf_id workflow) (''>='' @ sinceDate ds (timeWindowDays cfg))"

definition workflowFileName :: "string \<Rightarrow> string" where
  "workflowFileName p = pop_or_empty (split (CHR ''/'') p)"

text \<open>
  The classifier: \<^verbatim>\<open>shouldDisable\<close> and \<^verbatim>\<open>disableReasons\<close> start as \<^verbatim>\<open>false\<close> and
  \<^verbatim>\<open>[]\<close>. A safelisted file name leaves them so; otherwise each of the three rules, in
  the order of the source, pushes its reason and sets the flag when its condition holds.
\<close>

definition classify :: "Config \<Rightarrow> string \<Rightarrow> nat \<Rightarrow> nat \<Rightarrow> rat \<Rightarrow> nat \<Rightarrow> bool \<times> string list" where
  "classify cfg fileName nTotal nSuccessful rate nConsecutive =
     (if fileName \<in> set (safelistWorkflows cfg) then (False, [])
      else
        (let s0 = (False, []);
             s1 = (if int nConsecutive \<ge> failureThreshold cfg \<and> int nTotal \<ge> failureThreshold cfg
                   then (True, snd s0 @ [show_nat nConsecutive @ '' consecutive failures (threshold: ''
                                           @ show_int (failureThreshold cfg) @ '')''])
                   else s0);
             s2 = (if rate \<ge> of_int (failureRateThreshold cfg) \<and> nTotal \<ge> 5
                   then (True, snd s1 @ [toFixed1 rate @ ''% failure rate (threshold: ''
                                           @ show_int (failureRateThreshold cfg) @ ''%)''])
                   else s1);
             s3 = (if nTotal > 0 \<and> nSuccessful = 0
                   then (True, snd s2 @ [''No successful runs''])
                   else s2)
         in s3))"

definition analyzeWorkflow :: "Config \<Rightarrow> DataSource \<Rightarrow> string \<Rightarrow> WorkflowInfo \<Rightarrow> WorkflowAnalysis" where
  "analyzeWorkflow cfg ds repo workflow =
     (let runs = runsInWindow cfg ds repo workflow;
          nTotal = length runs;
          nSuccessful = length (filter is_success runs);
          nFailed = length (filter is_failure runs);
          rate = (if nTotal > 0 then (of_nat nFailed / of_nat nTotal) * 100 else 0);
          nConsecutive = consecutive_loop runs 0;
          decision = classify cfg (workflowFileName (wf_path workflow))
                       nTotal nSuccessful rate nConsecutive
      in \<lparr> wa_repository = repo,
           wa_workflowName = wf_name workflow,
           workflowPath = wf_path workflow,
           workflowId = wf_id workflow,
           totalRuns = nTotal,
           successfulRuns = nSuccessful,
           failedRuns = nFailed,
           failureRate = rate,
           consecutiveFailures = nConsecutive,
           lastRuns = take 10 runs,
           lastSuccessfulRun = find is_success runs,
           shouldDisable = fst decision,
           disableReason = snd decision,
           issues = checkWorkflowIssues ds repo (wf_path workflow) \<rparr>)"

section \<open>The analysis pass (analyzer.ts, github-client.ts)\<close>

definition analyzeRepository :: "Config \<Rightarrow> DataSource \<Rightarrow> string \<Rightarrow> RepositoryAnalysis" where
  "analyzeRepository cfg ds repo =
     (let wfs = getWorkflows ds repo;
          workflowAnalyses = map (analyzeWorkflow cfg ds repo) wfs;
          failingCount = length (filter shouldDisable workflowAnalyses)
      in \<lparr> ra_repository = repo,
           ra_totalWorkflows = length wfs,
           ra_failingWorkflows = failingCount,
           workflows = workflowAnalyses \<rparr>)"

text \<open>
  \<^verbatim>\<open>GitHubClient.checkRateLimit\<close>: a failed request propagates; a low quota only prints a
  warning (console output is not part of the model).
\<close>

definition checkRateLimit :: "DataSource \<Rightarrow> error + unit" where
  "checkRateLimit ds = (case rateLimit_get ds of Inl e \<Rightarrow> Inl e | Inr q \<Rightarrow> Inr ())"

definition perPage :: nat where
  "perPage = 100"

definition orgNotFound :: "Config \<Rightarrow> error" where
  "orgNotFound cfg =
     Error None (''Organization '' @ [CHR 0x27] @ cfg_organization cfg @ [CHR 0x27]
       @ '' not found or you don'' @ [CHR 0x27] @ ''t have access. ''
       @ ''Ensure your GitHub token has '' @ [CHR 0x27] @ ''read:org'' @ [CHR 0x27]
       @ '' permission and you are a member of the organization. ''
       @ ''You can check your token permissions at https://github.com/settings/tokens'')"

text \<open>
  The \<^verbatim>\<open>while (true)\<close> loop of \<^verbatim>\<open>getOrganizationRepositories\<close>: it ends at an empty
  page, at a page shorter than \<open>perPage\<close>, or with an exception; while the API keeps
  delivering full pages it goes on, so the loop is a partial function and not returning
  is the value \<open>None\<close>.
\<close>

partial_function (option) pages_loop ::
  "Config \<Rightarrow> DataSource \<Rightarrow> nat \<Rightarrow> string list \<Rightarrow> (error + string list) option" where
  "pages_loop cfg ds page repos =
     (case listForOrg ds page of
        Inl e \<Rightarrow> Some (Inl (if err_status e = Some 404 then orgNotFound cfg else e))
      | Inr names \<Rightarrow>
          (if length names = 0 then Some (Inr repos)
           else if length names < perPage then Some (Inr (repos @ names))
           else pages_loop cfg ds (page + 1) (repos @ names)))"

definition getOrganizationRepositories :: "Config \<Rightarrow> DataSource \<Rightarrow> (error + string list) option" where
  "getOrganizationRepositories cfg ds =
     (case pages_loop cfg ds 1 [] of
        None \<Rightarrow> None
      | Some (Inl e) \<Rightarrow> Some (Inl e)
      | Some (Inr repos) \<Rightarrow>
          Some (Inr (filter (\<lambda>repo. repo \<notin> set (excludeRepositories cfg)) repos)))"

text \<open>The accumulators of \<^verbatim>\<open>WorkflowAnalyzer.analyze\<close>.\<close>

record Accumulators =
  repositoryAnalyses :: "RepositoryAnalysis list"
  acc_totalWorkflows :: nat
  acc_failingWorkflows :: nat
  acc_totalRuns :: nat
  acc_successfulRuns :: nat
  acc_failedRuns :: nat

text \<open>
  The loop \<^verbatim>\<open>for (const repo of repositories)\<close>: a repository whose analysis has no
  workflow is passed over; the inner loop over the workflows adds up their run counts.
\<close>

fun analyze_loop :: "Config \<Rightarrow> DataSource \<Rightarrow> string list \<Rightarrow> Accumulators \<Rightarrow> Accumulators" where
  "analyze_loop cfg ds [] acc = acc"
| "analyze_loop cfg ds (repo # rest) acc =
     (let repoAnalysis = analyzeRepository cfg ds repo
      in if length (workflows repoAnalysis) > 0
         then analyze_loop cfg ds rest
                \<lparr> repositoryAnalyses = repositoryAnalyses acc @ [repoAnalysis],
                  acc_totalWorkflows = acc_totalWorkflows acc + ra_totalWorkflows repoAnalysis,
                  acc_failingWorkflows = acc_failingWorkflows acc + ra_failingWorkflows repoAnalysis,
                  acc_totalRuns = acc_totalRuns acc + sum_list (map totalRuns (workflows repoAnalysis)),
                  acc_successfulRuns =
                    acc_successfulRuns acc + sum_list (map successfulRuns (workflows repoAnalysis)),
                  acc_failedRuns = acc_failedRuns acc + sum_list (map failedRuns (workflows repoAnalysis)) \<rparr>
         else analyze_loop cfg ds rest acc)"

text \<open>
  \<^verbatim>\<open>parseFloat(x.toFixed(2))\<close> for \<open>x \<ge> 0\<close>: the nearest multiple of \<open>1/100\<close>, the
  larger one on a tie.
\<close>

definition round2 :: "rat \<Rightarrow> rat" where
  "round2 x = of_int \<lfloor>x * 100 + 1 / 2\<rfloor> / 100"

definition build_report :: "Config \<Rightarrow> DataSource \<Rightarrow> Accumulators \<Rightarrow> AnalysisReport" where
  "build_report cfg ds acc =
     \<lparr> rep_timestamp = now ds,
       rep_organization = cfg_organization cfg,
       totalRepositories = length (repositoryAnalyses acc),
       rep_totalWorkflows = acc_totalWorkflows acc,
       rep_failingWorkflows = acc_failingWorkflows acc,
       successRate =
         (if acc_totalRuns acc > 0
          then round2 ((of_nat (acc_successfulRuns acc) / of_nat (acc_totalRuns acc)) * 100)
          else 0),
       repositories = repositoryAnalyses acc,
       summary = \<lparr> sum_totalRuns = acc_totalRuns acc,
                   sum_successfulRuns = acc_successfulRuns acc,
                   sum_failedRuns = acc_failedRuns acc \<rparr> \<rparr>"

definition initial_accumulators :: Accumulators where
  "initial_accumulators =
     \<lparr> repositoryAnalyses = [], acc_totalWorkflows = 0, acc_failingWorkflows = 0,
       acc_totalRuns = 0, acc_successfulRuns = 0, acc_failedRuns = 0 \<rparr>"

text \<open>
  \<^verbatim>\<open>WorkflowAnalyzer.analyze\<close>: \<open>Some (Inl e)\<close> is the pass rejecting with the exception
  \<open>e\<close>, \<open>Some (Inr report)\<close> the pass returning a report.
\<close>

definition analyze :: "Config \<Rightarrow> DataSource \<Rightarrow> (error + AnalysisReport) option" where
  "analyze cfg ds =
     (case checkRateLimit ds of
        Inl e \<Rightarrow> Some (Inl e)
      | Inr u \<Rightarrow>
          (case getOrganizationRepositories cfg ds of
             None \<Rightarrow> None
           | Some (Inl e) \<Rightarrow> Some (Inl e)
           | Some (Inr repos) \<Rightarrow>
               Some (Inr (build_report cfg ds (analyze_loop cfg ds repos initial_accumulators)))))"

section \<open>Configuration check (config.ts, validateConfig)\<close>

definition validateConfig :: "Config \<Rightarrow> error + unit" where
  "validateConfig cfg =
     (if githubToken cfg = None \<or> githubToken cfg = Some []
      then Inl (Error None ''GitHub token is required. Set GITHUB_TOKEN environment variable or add it to config.json'')
      else if cfg_organization cfg = []
      then Inl (Error None ''Organization name is required'')
      else if failureThreshold cfg < 1
      then Inl (Error None ''Failure threshold must be at least 1'')
      else if failureRateThreshold cfg < 0 \<or> failureRateThreshold cfg > 100
      then Inl (Error None ''Failure rate threshold must be between 0 and 100'')
      else if timeWindowDays cfg < 1
      then Inl (Error None ''Time window must be at least 1 day'')
      else Inr ())"

section \<open>Lifecycle data (types.ts)\<close>

record DisabledWorkflow =
  dw_repository :: string
  dw_workflowName :: string
  originalPath :: string
  disabledPath :: string
  backupPath :: string
  disabledAt :: string
  reason :: "string list"
  analysis :: WorkflowAnalysis

record DisabledWorkflowsManifest =
  mf_timestamp :: string
  disabledWorkflows :: "DisabledWorkflow list"

text \<open>The four action kinds \<^verbatim>\<open>'analyze' | 'disable' | 'restore' | 'backup'\<close>.\<close>

datatype action = Analyze | Disable | Restore | Backup

text \<open>
  The values that the program stores in the \<^verbatim>\<open>details\<close> map of an entry: a string, a list
  of strings (the reasons) or a number.
\<close>

datatype detail = Text string | TextList "string list" | Number int

record AuditLogEntry =
  ae_timestamp :: string
  ae_action :: action
  ae_repository :: "string option"
  ae_workflow :: "string option"
  details :: "(string \<times> detail) list"
  success :: bool
  ae_error :: "string option"

section \<open>Files, clock and paths\<close>

text \<open>
  What the lifecycle manager takes from outside the program:
  \<^item> \<open>clock n\<close>: the value of \<^verbatim>\<open>new Date().toISOString()\<close> at the \<open>n\<close>-th reading of the
    clock (readings are counted from 0 in the field \<open>ticks\<close> of the state);
  \<^item> \<open>write_error p\<close>: \<open>None\<close> when \<^verbatim>\<open>fs.writeJson\<close> (or \<^verbatim>\<open>fs.ensureDir\<close>) on the path
    \<open>p\<close> succeeds, \<open>Some msg\<close> when it throws an error with message \<open>msg\<close>;
  \<^item> \<open>path_join\<close>, \<open>path_basename\<close>: \<^verbatim>\<open>path.join\<close> and \<^verbatim>\<open>path.basename\<close> of the platform.
\<close>

record Env =
  clock :: "nat \<Rightarrow> string"
  write_error :: "string \<Rightarrow> string option"
  path_join :: "string \<Rightarrow> string \<Rightarrow> string"
  path_basename :: "string \<Rightarrow> string"

text \<open>
  The state the lifecycle manager reads and writes: the directories it has ensured, the
  backup files it has written (path and content, in the order of writing), the manifest
  files by path, the entries held by the \<^verbatim>\<open>AuditLogger\<close> object, the path of its log file
  and the content of that file (\<open>None\<close> while it does not exist). The three kinds of file
  are kept apart, as their paths are for the paths the command line uses.
\<close>

record World =
  ticks :: nat
  directories :: "string set"
  backups :: "(string \<times> WorkflowAnalysis) list"
  manifests :: "string \<rightharpoonup> DisabledWorkflowsManifest"
  log_entries :: "AuditLogEntry list"
  logPath :: string
  logFile :: "AuditLogEntry list option"

section \<open>Audit logger (workflow-disabler.ts, AuditLogger)\<close>

definition save :: "Env \<Rightarrow> World \<Rightarrow> error option \<times> World" where
  "save env w =
     (case write_error env (logPath w) of
        Some msg \<Rightarrow> (Some (Error None msg), w)
      | None \<Rightarrow> (None, w \<lparr> logFile := Some (log_entries w) \<rparr>))"

text \<open>
  \<^verbatim>\<open>addEntry\<close> takes an entry without timestamp; here the caller passes an entry whose
  timestamp field is overwritten. The entry is pushed before the log is saved, so it
  stays in the logger's list when the save throws.
\<close>

definition addEntry :: "Env \<Rightarrow> AuditLogEntry \<Rightarrow> World \<Rightarrow> error option \<times> World" where
  "addEntry env entry w =
     (let fullEntry = entry \<lparr> ae_timestamp := clock env (ticks w) \<rparr>
      in save env (w \<lparr> ticks := ticks w + 1, log_entries := log_entries w @ [fullEntry] \<rparr>))"

definition backup_entry :: "string \<Rightarrow> WorkflowAnalysis \<Rightarrow> string \<Rightarrow> AuditLogEntry" where
  "backup_entry repo workflow bpath =
     \<lparr> ae_timestamp = [], ae_action = Backup, ae_repository = Some repo,
       ae_workflow = Some (wa_workflowName workflow),
       details = [(''backupPath'', Text bpath)],
       success = True, ae_error = None \<rparr>"

definition disable_entry :: "string \<Rightarrow> WorkflowAnalysis \<Rightarrow> DisabledWorkflow \<Rightarrow> AuditLogEntry" where
  "disable_entry repo workflow disabled =
     \<lparr> ae_timestamp = [], ae_action = Disable, ae_repository = Some repo,
       ae_workflow = Some (wa_workflowName workflow),
       details = [(''originalPath'', Text (originalPath disabled)),
                  (''disabledPath'', Text (disabledPath disabled)),
                  (''reason'', TextList (reason disabled))],
       success = True, ae_error = None \<rparr>"

definition disable_failed_entry :: "string \<Rightarrow> WorkflowAnalysis \<Rightarrow> error \<Rightarrow> AuditLogEntry" where
  "disable_failed_entry repo workflow e =
     \<lparr> ae_timestamp = [], ae_action = Disable, ae_repository = Some repo,
       ae_workflow = Some (wa_workflowName workflow),
       details = [(''error'', Text (message e))],
       success = False, ae_error = Some (message e) \<rparr>"

definition restore_entry :: "DisabledWorkflow \<Rightarrow> AuditLogEntry" where
  "restore_entry workflow =
     \<lparr> ae_timestamp = [], ae_action = Restore, ae_repository = Some (dw_repository workflow),
       ae_workflow = Some (dw_workflowName workflow),
       details = [(''originalPath'', Text (originalPath workflow)),
                  (''disabledPath'', Text (disabledPath workflow))],
       success = True, ae_error = None \<rparr>"

definition restore_failed_entry :: "DisabledWorkflow \<Rightarrow> error \<Rightarrow> AuditLogEntry" where
  "restore_failed_entry workflow e =
     \<lparr> ae_timestamp = [], ae_action = Restore, ae_repository = Some (dw_repository workflow),
       ae_workflow = Some (dw_workflowName workflow),
       details = [(''error'', Text (message e))],
       success = False, ae_error = Some (message e) \<rparr>"

section \<open>Disable transition (workflow-disabler.ts, disableWorkflows)\<close>

definition manifest_path :: string where
  "manifest_path = ''disabled-workflows-manifest.json''"

text \<open>\<^verbatim>\<open>s.replace(/[:.]/g, '-')\<close>.\<close>

definition replace_colon_dot :: "string \<Rightarrow> string" where
  "replace_colon_dot s = map (\<lambda>c. if c = CHR '':'' \<or> c = CHR ''.'' then CHR ''-'' else c) s"

text \<open>
  The backup location and the record that \<^verbatim>\<open>disableWorkflow\<close> computes first, in a
  state \<open>w\<close>: the file name of the backup carries the first reading of the clock,
  \<^verbatim>\<open>disabledAt\<close> is the second reading.
\<close>

definition backup_location :: "Env \<Rightarrow> Config \<Rightarrow> string \<Rightarrow> WorkflowAnalysis \<Rightarrow> World \<Rightarrow> string" where
  "backup_location env cfg repo workflow w =
     (let orig = workflowPath workflow;
          stamp = replace_colon_dot (clock env (ticks w))
      in path_join env (backupDirectory cfg)
           (repo @ ''_'' @ path_basename env orig @ ''_'' @ stamp))"

definition disabled_record :: "Env \<Rightarrow> Config \<Rightarrow> string \<Rightarrow> WorkflowAnalysis \<Rightarrow> World \<Rightarrow> DisabledWorkflow" where
  "disabled_record env cfg repo workflow w =
     (let orig = workflowPath workflow
      in \<lparr> dw_repository = repo,
           dw_workflowName = wa_workflowName workflow,
           originalPath = orig,
           disabledPath = orig @ ''.disabled'',
           backupPath = backup_location env cfg repo workflow w,
           disabledAt = clock env (ticks w + 1),
           reason = disableReason workflow,
           analysis = workflow \<rparr>)"

text \<open>
  \<^verbatim>\<open>disableWorkflow\<close>: builds the record and, unless in a dry run, writes the backup
  file and adds the audit entry \<open>backup\<close>. \<open>Inl\<close> is a thrown exception.
\<close>

definition disableWorkflow ::
  "Env \<Rightarrow> Config \<Rightarrow> string \<Rightarrow> WorkflowAnalysis \<Rightarrow> bool \<Rightarrow> World \<Rightarrow> (error + DisabledWorkflow) \<times> World" where
  "disableWorkflow env cfg repo workflow dry w =
     (let bpath = backup_location env cfg repo workflow w;
          disabledWorkflow = disabled_record env cfg repo workflow w;
          w1 = w \<lparr> ticks := ticks w + 2 \<rparr>
      in if \<not> dry
         then (case write_error env bpath of
                 Some msg \<Rightarrow> (Inl (Error None msg), w1)
               | None \<Rightarrow>
                   (case addEntry env (backup_entry repo workflow bpath)
                           (w1 \<lparr> backups := backups w1 @ [(bpath, workflow)] \<rparr>) of
                      (Some e, w2) \<Rightarrow> (Inl e, w2)
                    | (None, w2) \<Rightarrow> (Inr disabledWorkflow, w2)))
         else (Inr disabledWorkflow, w1))"

text \<open>
  The \<^verbatim>\<open>catch\<close> block of the inner loop: it adds the failure entry, in a dry run too; an
  exception of \<^verbatim>\<open>addEntry\<close> thrown here leaves \<^verbatim>\<open>disableWorkflows\<close>.
\<close>

definition disable_catch :: "Env \<Rightarrow> string \<Rightarrow> WorkflowAnalysis \<Rightarrow> error \<Rightarrow> World \<Rightarrow> error option \<times> World" where
  "disable_catch env repo workflow e w = addEntry env (disable_failed_entry repo workflow e) w"

text \<open>
  The loop \<^verbatim>\<open>for (const workflow of failingWorkflows)\<close>, over the list
  \<^verbatim>\<open>disabledWorkflows\<close> built so far and the state. In the \<^verbatim>\<open>try\<close> block the record is
  pushed before the audit entry \<open>disable\<close> is added, so it stays in the list when that
  entry cannot be saved.
\<close>

fun disable_each ::
  "Env \<Rightarrow> Config \<Rightarrow> string \<Rightarrow> bool \<Rightarrow> WorkflowAnalysis list \<Rightarrow> DisabledWorkflow list \<times> World
     \<Rightarrow> error option \<times> DisabledWorkflow list \<times> World" where
  "disable_each env cfg repo dry [] (acc, w) = (None, acc, w)"
| "disable_each env cfg repo dry (workflow # rest) (acc, w) =
     (case disableWorkflow env cfg repo workflow dry w of
        (Inl e, w1) \<Rightarrow>
          (case disable_catch env repo workflow e w1 of
             (Some e', w2) \<Rightarrow> (Some e', acc, w2)
           | (None, w2) \<Rightarrow> disable_each env cfg repo dry rest (acc, w2))
      | (Inr disabled, w1) \<Rightarrow>
          (if \<not> dry
           then (case addEntry env (disable_entry repo workflow disabled) w1 of
                   (Some e, w2) \<Rightarrow>
                     (case disable_catch env repo workflow e w2 of
                        (Some e', w3) \<Rightarrow> (Some e', acc @ [disabled], w3)
                      | (None, w3) \<Rightarrow> disable_each env cfg repo dry rest (acc @ [disabled], w3))
                 | (None, w2) \<Rightarrow> disable_each env cfg repo dry rest (acc @ [disabled], w2))
           else disable_each env cfg repo dry rest (acc @ [disabled], w1)))"

text \<open>The loop \<^verbatim>\<open>for (const repo of report.repositories)\<close>.\<close>

fun disable_repos ::
  "Env \<Rightarrow> Config \<Rightarrow> bool \<Rightarrow> RepositoryAnalysis list \<Rightarrow> DisabledWorkflow list \<times> World
     \<Rightarrow> error option \<times> DisabledWorkflow list \<times> World" where
  "disable_repos env cfg dry [] s = (None, s)"
| "disable_repos env cfg dry (repo # rest) s =
     (let failing = filter shouldDisable (workflows repo)
      in if length failing = 0 then disable_repos env cfg dry rest s
         else (case disable_each env cfg (ra_repository repo) dry failing s of
                 (Some e, s1) \<Rightarrow> (Some e, s1)
               | (None, s1) \<Rightarrow> disable_repos env cfg dry rest s1))"

definition ensureDir :: "Env \<Rightarrow> string \<Rightarrow> World \<Rightarrow> error option \<times> World" where
  "ensureDir env dir w =
     (case write_error env dir of
        Some msg \<Rightarrow> (Some (Error None msg), w)
      | None \<Rightarrow> (None, w \<lparr> directories := insert dir (directories w) \<rparr>))"

text \<open>
  \<^verbatim>\<open>disableWorkflows\<close>: \<open>Inl\<close> is the call rejecting with an exception, \<open>Inr\<close> the
  manifest it returns; the second component is the state it leaves.
\<close>

definition disableWorkflows ::
  "Env \<Rightarrow> Config \<Rightarrow> AnalysisReport \<Rightarrow> bool \<Rightarrow> World \<Rightarrow> (error + DisabledWorkflowsManifest) \<times> World" where
  "disableWorkflows env cfg report dry w =
     (case ensureDir env (backupDirectory cfg) w of
        (Some e, w0) \<Rightarrow> (Inl e, w0)
      | (None, w0) \<Rightarrow>
          (case disable_repos env cfg dry (repositories report) ([], w0) of
             (Some e, acc, w1) \<Rightarrow> (Inl e, w1)
           | (None, acc, w1) \<Rightarrow>
               (let manifest = \<lparr> mf_timestamp = clock env (ticks w1), disabledWorkflows = acc \<rparr>;
                    w2 = w1 \<lparr> ticks := ticks w1 + 1 \<rparr>
                in if \<not> dry
                   then (case write_error env manifest_path of
                           Some msg \<Rightarrow> (Inl (Error None msg), w2)
                         | None \<Rightarrow>
                             (Inr manifest,
                              w2 \<lparr> manifests := (manifests w2)(manifest_path \<mapsto> manifest) \<rparr>))
                   else (Inr manifest, w2))))"

section \<open>Restore transition (workflow-disabler.ts, restoreWorkflows)\<close>

record RestoreOptions =
  opt_repo :: "string option"
  opt_workflow :: "string option"
  opt_all :: "bool option"
  opt_dryRun :: "bool option"

text \<open>
  The two filters. \<^verbatim>\<open>if (options.repo)\<close> tests the truthiness of an optional string: it
  holds when the string is present and not empty. \<^verbatim>\<open>s.includes(t)\<close> is the predicate
  \<open>sublist t s\<close>: \<open>t\<close> occurs in \<open>s\<close> as a contiguous piece.
\<close>

definition restore_candidates :: "RestoreOptions \<Rightarrow> DisabledWorkflow list \<Rightarrow> DisabledWorkflow list" where
  "restore_candidates options ws =
     (let ws1 = (case opt_repo options of
                   None \<Rightarrow> ws
                 | Some r \<Rightarrow> if r \<noteq> [] then filter (\<lambda>w. dw_repository w = r) ws else ws);
          ws2 = (case opt_workflow options of
                   None \<Rightarrow> ws1
                 | Some f \<Rightarrow> if f \<noteq> [] then filter (\<lambda>w. sublist f (originalPath w)) ws1 else ws1)
      in ws2)"

text \<open>\<^verbatim>\<open>restoreWorkflow\<close> has an empty body in both modes: it never throws.\<close>

definition restoreWorkflow :: "DisabledWorkflow \<Rightarrow> bool \<Rightarrow> World \<Rightarrow> error option \<times> World" where
  "restoreWorkflow workflow dry w = (if \<not> dry then (None, w) else (None, w))"

definition restore_catch :: "Env \<Rightarrow> DisabledWorkflow \<Rightarrow> error \<Rightarrow> World \<Rightarrow> error option \<times> World" where
  "restore_catch env workflow e w = addEntry env (restore_failed_entry workflow e) w"

text \<open>The loop \<^verbatim>\<open>for (const workflow of workflowsToRestore)\<close> with its \<^verbatim>\<open>try\<close>/\<^verbatim>\<open>catch\<close>.\<close>

fun restore_each :: "Env \<Rightarrow> bool \<Rightarrow> DisabledWorkflow list \<Rightarrow> World \<Rightarrow> error option \<times> World" where
  "restore_each env dry [] w = (None, w)"
| "restore_each env dry (workflow # rest) w =
     (case restoreWorkflow workflow dry w of
        (Some e, w1) \<Rightarrow>
          (case restore_catch env workflow e w1 of
             (Some e', w2) \<Rightarrow> (Some e', w2)
           | (None, w2) \<Rightarrow> restore_each env dry rest w2)
      | (None, w1) \<Rightarrow>
          (if \<not> dry
           then (case addEntry env (restore_entry workflow) w1 of
                   (Some e, w2) \<Rightarrow>
                     (case restore_catch env workflow e w2 of
                        (Some e', w3) \<Rightarrow> (Some e', w3)
                      | (None, w3) \<Rightarrow> restore_each env dry rest w3)
                 | (None, w2) \<Rightarrow> restore_each env dry rest w2)
           else restore_each env dry rest w1))"

text \<open>
  \<^verbatim>\<open>restoreWorkflows\<close>: \<open>Some e\<close> is the call rejecting with the exception \<open>e\<close>. The option
  \<^verbatim>\<open>all\<close> is not read. \<^verbatim>\<open>workflowsToRestore.includes(w)\<close> compares object identities; the
  candidates are the very objects of the manifest that pass the filters, and whether a
  record passes depends on its content only, so membership by content selects the same
  records. The rewritten manifest keeps its old timestamp.
\<close>

definition restoreWorkflows :: "Env \<Rightarrow> string \<Rightarrow> RestoreOptions \<Rightarrow> World \<Rightarrow> error option \<times> World" where
  "restoreWorkflows env manifestPath options w =
     (let dry = (case opt_dryRun options of None \<Rightarrow> True | Some b \<Rightarrow> b)
      in case manifests w manifestPath of
           None \<Rightarrow> (Some (Error None (''Manifest file not found: '' @ manifestPath)), w)
         | Some manifest \<Rightarrow>
             (let workflowsToRestore = restore_candidates options (disabledWorkflows manifest)
              in if length workflowsToRestore = 0 then (None, w)
                 else (case restore_each env dry workflowsToRestore w of
                         (Some e, w1) \<Rightarrow> (Some e, w1)
                       | (None, w1) \<Rightarrow>
                           (if \<not> dry \<and> length workflowsToRestore > 0
                            then (let remainingWorkflows =
                                        filter (\<lambda>x. x \<notin> set workflowsToRestore)
                                          (disabledWorkflows manifest);
                                      manifest' = manifest \<lparr> disabledWorkflows := remainingWorkflows \<rparr>
                                  in case write_error env manifestPath of
                                       Some msg \<Rightarrow> (Some (Error None msg), w1)
                                     | None \<Rightarrow>
                                         (None,
                                          w1 \<lparr> manifests := (manifests w1)(manifestPath \<mapsto> manifest') \<rparr>))
                            else (None, w1)))))"

section \<open>The restore command (cli.ts)\<close>

text \<open>
  The flags of \<^verbatim>\<open>restore\<close> as the command line parser delivers them, and the options the
  command passes on: \<^verbatim>\<open>dryRun\<close> is \<^verbatim>\<open>!options.confirm\<close>, \<^verbatim>\<open>all\<close> is handed over as it is.
\<close>

record RestoreFlags =
  flag_repo :: "string option"
  flag_workflow :: "string option"
  flag_all :: "bool option"
  flag_confirm :: "bool option"

definition restore_command_options :: "RestoreFlags \<Rightarrow> RestoreOptions" where
  "restore_command_options flags =
     \<lparr> opt_repo = flag_repo flags,
       opt_workflow = flag_workflow flags,
       opt_all = flag_all flags,
       opt_dryRun = Some (\<not> (case flag_confirm flags of None \<Rightarrow> False | Some b \<Rightarrow> b)) \<rparr>"

text \<open>
  The workflows a report flags, each with the name of its repository, in the order in
  which \<^verbatim>\<open>disableWorkflows\<close> visits them.
\<close>

definition flagged :: "AnalysisReport \<Rightarrow> (string \<times> WorkflowAnalysis) list" where
  "flagged report =
     concat (map (\<lambda>repo. map (\<lambda>workflow. (ra_repository repo, workflow))
                            (filter shouldDisable (workflows repo)))
                 (repositories report))"

text \<open>
  Two states with the same files and the same audit log: the manifest files, the backup
  files written, the entries of the logger and the log file all agree (the count of clock
  readings and the ensured directories may differ).
\<close>

definition same_files :: "World \<Rightarrow> World \<Rightarrow> bool" where
  "same_files w w' \<longleftrightarrow>
     manifests w' = manifests w \<and> backups w' = backups w
     \<and> log_entries w' = log_entries w \<and> logFile w' = logFile w"

text \<open>
  What identifies the origin of a record: the repository and the analysis it was built
  from.
\<close>

definition record_key :: "DisabledWorkflow \<Rightarrow> string \<times> WorkflowAnalysis" where
  "record_key d = (dw_repository d, analysis d)"

text \<open>
  A record agrees with the analysis it carries: name, path, disabled path and reasons are
  the ones \<^verbatim>\<open>disableWorkflow\<close> derives from that analysis.
\<close>

definition built_from_analysis :: "DisabledWorkflow \<Rightarrow> bool" where
  "built_from_analysis d \<longleftrightarrow>
     dw_workflowName d = wa_workflowName (analysis d)
     \<and> originalPath d = workflowPath (analysis d)
     \<and> disabledPath d = workflowPath (analysis d) @ ''.disabled''
     \<and> reason d = disableReason (analysis d)"

text \<open>The flagged workflows of a list of repository analyses, in the order of the two loops.\<close>

definition flagged_in :: "RepositoryAnalysis list \<Rightarrow> (string \<times> WorkflowAnalysis) list" where
  "flagged_in repos =
     concat (map (\<lambda>repo. map (\<lambda>workflow. (ra_repository repo, workflow))
                            (filter shouldDisable (workflows repo))) repos)"

text \<open>A file system on which no write fails.\<close>

definition writes_succeed :: "Env \<Rightarrow> bool" where
  "writes_succeed env \<longleftrightarrow> (\<forall>p. write_error env p = None)"

text \<open>
  The options of a live restore with both filters given: repository filter \<open>r\<close>, workflow
  filter \<open>f\<close>, any value of \<^verbatim>\<open>all\<close>. A record is selected by the two filters when its
  repository is \<open>r\<close> and \<open>f\<close> occurs in its original path.
\<close>

definition both_filters :: "string \<Rightarrow> string \<Rightarrow> bool option \<Rightarrow> RestoreOptions" where
  "both_filters r f a =
     \<lparr> opt_repo = Some r, opt_workflow = Some f, opt_all = a, opt_dryRun = Some False \<rparr>"

definition selected :: "string \<Rightarrow> string \<Rightarrow> DisabledWorkflow \<Rightarrow> bool" where
  "selected r f x \<longleftrightarrow> dw_repository x = r \<and> sublist f (originalPath x)"

section \<open>Example inputs\<close>

definition example_config :: Config where
  "example_config =
     \<lparr> failureThreshold = 3, failureRateThreshold = 80, timeWindowDays = 7,
       excludeRepositories = [], safelistWorkflows = [], cfg_dryRun = True,
       githubToken = Some ''token'', cfg_organization = ''acme'',
       maxConcurrentRequests = 5, backupDirectory = ''workflow-backups'' \<rparr>"

definition safelist_config :: Config where
  "safelist_config = example_config \<lparr> safelistWorkflows := [''ci.yml''] \<rparr>"

definition failed_run :: WorkflowRun where
  "failed_run =
     \<lparr> run_id = 1, run_name = ''CI'', status = Some ''completed'',
       conclusion = Some ''failure'', created_at = ''2024-01-02T00:00:00Z'',
       updated_at = ''2024-01-02T00:05:00Z'', run_number = 1, html_url = [] \<rparr>"

definition ci_workflow :: WorkflowInfo where
  "ci_workflow =
     \<lparr> wf_name = ''CI'', wf_path = ''.github/workflows/ci.yml'', wf_state = ''active'',
       wf_id = 7 \<rparr>"

text \<open>One repository \<open>api\<close> with one workflow, whose last four runs all failed.\<close>

definition example_source :: DataSource where
  "example_source =
     \<lparr> rateLimit_get = Inr (5000, 5000, 0),
       listForOrg = (\<lambda>page. if page = 1 then Inr [''api''] else Inr []),
       listRepoWorkflows = (\<lambda>repo. Inr [ci_workflow]),
       listWorkflowRuns = (\<lambda>repo wid created. Inr (replicate 4 failed_run)),
       checkWorkflowIssues = (\<lambda>repo p. []),
       sinceDate = (\<lambda>days. ''2024-01-01T00:00:00.000Z''),
       now = ''2024-01-08T00:00:00.000Z'' \<rparr>"

text \<open>The same, with ten failed runs, and with no run in the window.\<close>

definition failing_source :: DataSource where
  "failing_source =
     example_source \<lparr> listWorkflowRuns := (\<lambda>repo wid created. Inr (replicate 10 failed_run)) \<rparr>"

definition quiet_source :: DataSource where
  "quiet_source = example_source \<lparr> listWorkflowRuns := (\<lambda>repo wid created. Inr []) \<rparr>"

text \<open>Data sources for the analysis pass: a failing request answers with status 500.\<close>

definition server_error :: error where
  "server_error = Error (Some 500) ''Internal Server Error''"

text \<open>Two repositories, of which \<open>docs\<close> has no workflow.\<close>

definition two_repo_source :: DataSource where
  "two_repo_source =
     example_source
       \<lparr> listForOrg := (\<lambda>page. if page = 1 then Inr [''api'', ''docs''] else Inr []),
         listRepoWorkflows := (\<lambda>repo. if repo = ''api'' then Inr [ci_workflow] else Inr []) \<rparr>"

text \<open>Sources on which one kind of request always fails.\<close>

definition no_workflows_source :: DataSource where
  "no_workflows_source = example_source \<lparr> listRepoWorkflows := (\<lambda>repo. Inl server_error) \<rparr>"

definition no_runs_source :: DataSource where
  "no_runs_source = example_source \<lparr> listWorkflowRuns := (\<lambda>repo wid created. Inl server_error) \<rparr>"

definition no_org_source :: DataSource where
  "no_org_source = example_source \<lparr> listForOrg := (\<lambda>page. Inl (Error (Some 404) ''Not Found'')) \<rparr>"

section \<open>Example inputs of the lifecycle manager\<close>

text \<open>
  For the lifecycle manager: a file system on which every write succeeds, a clock that
  always shows the same instant, and POSIX paths.
\<close>

definition example_env :: Env where
  "example_env =
     \<lparr> clock = (\<lambda>n. ''2024-01-08T00:00:00.000Z''),
       write_error = (\<lambda>p. None),
       path_join = (\<lambda>dir file. dir @ ''/'' @ file),
       path_basename = (\<lambda>p. pop_or_empty (split (CHR ''/'') p)) \<rparr>"

text \<open>The analysis of the workflow \<open>ci.yml\<close> of \<open>api\<close> (four failures), and the report holding it.\<close>

definition flagged_ci :: WorkflowAnalysis where
  "flagged_ci = analyzeWorkflow example_config example_source ''api'' ci_workflow"

definition example_report :: AnalysisReport where
  "example_report =
     build_report example_config example_source
       (analyze_loop example_config example_source [''api''] initial_accumulators)"

text \<open>A state with no file and an empty log.\<close>

definition empty_world :: World where
  "empty_world =
     \<lparr> ticks = 0, directories = {}, backups = [], manifests = Map.empty,
       log_entries = [], logPath = ''audit-log.json'', logFile = None \<rparr>"

text \<open>The record the disable transition builds for \<open>ci.yml\<close>.\<close>

definition ci_record :: DisabledWorkflow where
  "ci_record = disabled_record example_env example_config ''api'' flagged_ci empty_world"

text \<open>
  A record left by an earlier disable transition, for the workflow \<open>deploy.yml\<close> of the
  repository \<open>web\<close>, and a state whose manifest holds it.
\<close>

definition old_record :: DisabledWorkflow where
  "old_record =
     disabled_record example_env example_config ''web''
       (flagged_ci \<lparr> wa_repository := ''web'', wa_workflowName := ''Deploy'',
                     workflowPath := ''.github/workflows/deploy.yml'' \<rparr>)
       empty_world"

definition stale_world :: World where
  "stale_world =
     empty_world \<lparr> manifests :=
       [manifest_path \<mapsto> \<lparr> mf_timestamp = ''2024-01-01T00:00:00.000Z'',
                                disabledWorkflows = [old_record] \<rparr>] \<rparr>"

text \<open>The manifest that the disable transition writes for the example report.\<close>

definition example_manifest :: DisabledWorkflowsManifest where
  "example_manifest =
     \<lparr> mf_timestamp = ''2024-01-08T00:00:00.000Z'', disabledWorkflows = [ci_record] \<rparr>"

text \<open>
  A live restore with both filters, which match the record of \<open>ci.yml\<close> and no other; the
  states after the disable transition and after the restore transition that follows.
\<close>

definition exact_options :: RestoreOptions where
  "exact_options =
     \<lparr> opt_repo = Some ''api'', opt_workflow = Some ''.github/workflows/ci.yml'',
       opt_all = None, opt_dryRun = Some False \<rparr>"

definition after_disable :: World where
  "after_disable = snd (disableWorkflows example_env example_config example_report False stale_world)"

definition after_restore :: World where
  "after_restore = snd (restoreWorkflows example_env manifest_path exact_options after_disable)"

text \<open>
  Reports with several flagged workflows. \<open>source_with wfs\<close> is the example source with the
  workflows \<open>wfs\<close> in the repository \<open>api\<close> (each with four failed runs), \<open>report_with wfs\<close>
  the report of the analysis pass over it; then the analysis and the record of one of
  the workflows, the manifest the disable transition writes, and the state it leaves
  when started in the state with the stale manifest.
\<close>

definition deploy_workflow :: WorkflowInfo where
  "deploy_workflow =
     \<lparr> wf_name = ''Deploy'', wf_path = ''.github/workflows/deploy.yml'', wf_state = ''active'',
       wf_id = 8 \<rparr>"

definition yaml_workflow :: WorkflowInfo where
  "yaml_workflow =
     \<lparr> wf_name = ''CI copy'', wf_path = ''.github/workflows/ci.yml.yaml'', wf_state = ''active'',
       wf_id = 9 \<rparr>"

definition source_with :: "WorkflowInfo list \<Rightarrow> DataSource" where
  "source_with wfs = example_source \<lparr> listRepoWorkflows := (\<lambda>repo. Inr wfs) \<rparr>"

definition report_with :: "WorkflowInfo list \<Rightarrow> AnalysisReport" where
  "report_with wfs =
     build_report example_config (source_with wfs)
       (analyze_loop example_config (source_with wfs) [''api''] initial_accumulators)"

definition analysis_with :: "WorkflowInfo list \<Rightarrow> WorkflowInfo \<Rightarrow> WorkflowAnalysis" where
  "analysis_with wfs wi = analyzeWorkflow example_config (source_with wfs) ''api'' wi"

definition record_with :: "WorkflowInfo list \<Rightarrow> WorkflowInfo \<Rightarrow> DisabledWorkflow" where
  "record_with wfs wi =
     disabled_record example_env example_config ''api'' (analysis_with wfs wi) empty_world"

definition manifest_with :: "WorkflowInfo list \<Rightarrow> DisabledWorkflowsManifest" where
  "manifest_with wfs =
     \<lparr> mf_timestamp = ''2024-01-08T00:00:00.000Z'',
       disabledWorkflows = map (record_with wfs) wfs \<rparr>"

definition disabled_with :: "WorkflowInfo list \<Rightarrow> World" where
  "disabled_with wfs =
     snd (disableWorkflows example_env example_config (report_with wfs) False stale_world)"

text \<open>
  Two workflows with unrelated paths, and two workflows of which one path is the other
  with a suffix; a live restore for the repository \<open>api\<close> and the exact path of \<open>ci.yml\<close>.
\<close>

definition two_workflows :: "WorkflowInfo list" where
  "two_workflows = [ci_workflow, deploy_workflow]"

definition similar_workflows :: "WorkflowInfo list" where
  "similar_workflows = [ci_workflow, yaml_workflow]"

definition ci_path_options :: RestoreOptions where
  "ci_path_options = both_filters ''api'' ''.github/workflows/ci.yml'' None"

section \<open>Properties of the metric engine and the classifier\<close>

lemma success_not_failure: "is_success r \<Longrightarrow> \<not> is_failure r"
  by (auto simp: is_success_def is_failure_def)

lemma consecutive_loop_count:
  "consecutive_loop runs n = n + failures_before_first_success runs"
  by (induction runs arbitrary: n)
     (auto simp: failures_before_first_success_def success_not_failure)

lemma consecutive_loop_skips_other:
  "consecutive_loop (filter (\<lambda>r. is_failure r \<or> is_success r) runs) n = consecutive_loop runs n"
  by (induction runs arbitrary: n) auto

text \<open>
  Claim C6. The counter \<^verbatim>\<open>consecutiveFailures\<close> of an analysis is the number of failed or
  timed-out runs of the fetched history (most recent first) that come before the first
  successful run; and a run with any other outcome (cancelled, skipped, none) does not
  take part: deleting all such runs from a history leaves the counter unchanged, so they
  neither increment it, nor reset it, nor stop the loop.
\<close>

theorem consecutive_failures_counts:
  "consecutiveFailures (analyzeWorkflow cfg ds repo workflow)
     = failures_before_first_success (runsInWindow cfg ds repo workflow)
   \<and> consecutive_loop runs 0 = failures_before_first_success runs
   \<and> consecutive_loop (filter (\<lambda>r. is_failure r \<or> is_success r) runs) 0 = consecutive_loop runs 0"
proof -
  have "consecutiveFailures (analyzeWorkflow cfg ds repo workflow)
          = consecutive_loop (runsInWindow cfg ds repo workflow) 0"
    by (simp add: analyzeWorkflow_def Let_def)
  then show ?thesis
    using consecutive_loop_count[of _ 0] consecutive_loop_skips_other[of runs 0] by simp
qed

lemma classify_no_runs:
  "1 \<le> failureThreshold cfg \<Longrightarrow> classify cfg f 0 0 0 0 = (False, [])"
  by (simp add: classify_def)

lemma validateConfig_threshold: "validateConfig cfg = Inr () \<Longrightarrow> 1 \<le> failureThreshold cfg"
  by (simp add: validateConfig_def split: if_splits)

lemma validateConfig_example: "validateConfig example_config = Inr ()"
  by (simp add: validateConfig_def example_config_def)

text \<open>
  Claim C7. For a configuration that passes \<^verbatim>\<open>validateConfig\<close> (the command line checks
  every configuration with it before the analyzer is built) and a workflow with no run in
  the window, the failure rate is 0, the counter of consecutive failures is 0, there is
  no last successful run, and the workflow is not flagged, whatever the safelist.
\<close>

theorem empty_history_not_flagged:
  assumes "validateConfig cfg = Inr ()" and "runsInWindow cfg ds repo workflow = []"
  shows "failureRate (analyzeWorkflow cfg ds repo workflow) = 0
       \<and> consecutiveFailures (analyzeWorkflow cfg ds repo workflow) = 0
       \<and> lastSuccessfulRun (analyzeWorkflow cfg ds repo workflow) = None
       \<and> shouldDisable (analyzeWorkflow cfg ds repo workflow) = False"
  using assms(2) validateConfig_threshold[OF assms(1)]
  by (simp add: analyzeWorkflow_def classify_no_runs)

lemma quiet_runs: "runsInWindow example_config quiet_source ''api'' ci_workflow = []"
  by (simp add: runsInWindow_def getWorkflowRuns_def quiet_source_def)

theorem empty_history_not_flagged_witness:
  "validateConfig example_config = Inr ()
   \<and> runsInWindow example_config quiet_source ''api'' ci_workflow = []
   \<and> failureRate (analyzeWorkflow example_config quiet_source ''api'' ci_workflow) = 0
   \<and> consecutiveFailures (analyzeWorkflow example_config quiet_source ''api'' ci_workflow) = 0
   \<and> lastSuccessfulRun (analyzeWorkflow example_config quiet_source ''api'' ci_workflow) = None
   \<and> shouldDisable (analyzeWorkflow example_config quiet_source ''api'' ci_workflow) = False"
  using empty_history_not_flagged[OF validateConfig_example quiet_runs]
    validateConfig_example quiet_runs
  by simp

text \<open>
  Claim C5. A workflow whose file name (the last segment of its path) is in the safelist
  is not flagged, whatever its run history.
\<close>

theorem safelist_forces_no_disable:
  assumes "workflowFileName (wf_path workflow) \<in> set (safelistWorkflows cfg)"
  shows "shouldDisable (analyzeWorkflow cfg ds repo workflow) = False"
  using assms by (simp add: analyzeWorkflow_def classify_def Let_def)

lemma ci_file_name: "workflowFileName (wf_path ci_workflow) = ''ci.yml''"
  by (simp add: workflowFileName_def ci_workflow_def pop_or_empty_def)

lemma ci_safelisted: "workflowFileName (wf_path ci_workflow) \<in> set (safelistWorkflows safelist_config)"
  by (simp add: ci_file_name safelist_config_def)

lemma failing_runs:
  "runsInWindow safelist_config failing_source ''api'' ci_workflow = replicate 10 failed_run"
  by (simp add: runsInWindow_def getWorkflowRuns_def failing_source_def)

lemma failing_metrics:
  "totalRuns (analyzeWorkflow safelist_config failing_source ''api'' ci_workflow) = 10"
  "failedRuns (analyzeWorkflow safelist_config failing_source ''api'' ci_workflow) = 10"
  by (simp_all add: analyzeWorkflow_def Let_def failing_runs is_failure_def failed_run_def)

text \<open>The witness: ten failures out of ten runs, file name \<open>ci.yml\<close> safelisted.\<close>

theorem safelist_forces_no_disable_witness:
  "workflowFileName (wf_path ci_workflow) \<in> set (safelistWorkflows safelist_config)
   \<and> totalRuns (analyzeWorkflow safelist_config failing_source ''api'' ci_workflow) = 10
   \<and> failedRuns (analyzeWorkflow safelist_config failing_source ''api'' ci_workflow) = 10
   \<and> shouldDisable (analyzeWorkflow safelist_config failing_source ''api'' ci_workflow) = False"
  using safelist_forces_no_disable[OF ci_safelisted, of failing_source "''api''"]
    ci_safelisted failing_metrics
  by simp

lemma four_failures_metrics:
  assumes "length runs = 4" and "\<forall>r \<in> set runs. conclusion r = Some ''failure''"
  shows "filter is_failure runs = runs"
    and "filter is_success runs = []"
    and "consecutive_loop runs 0 = 4"
proof -
  have f: "\<forall>r \<in> set runs. is_failure r"
    using assms(2) by (simp add: is_failure_def)
  then show 1: "filter is_failure runs = runs" by simp
  have "\<forall>r \<in> set runs. \<not> is_success r"
    using f success_not_failure by blast
  then show "filter is_success runs = []" by simp
  then have tw: "takeWhile (\<lambda>r. \<not> is_success r) runs = runs"
    by (simp add: takeWhile_eq_all_conv filter_empty_conv)
  show "consecutive_loop runs 0 = 4"
    by (simp add: consecutive_loop_count failures_before_first_success_def tw 1 assms(1))
qed

lemma show_nat_4: "show_nat 4 = ''4''"
  by code_simp

lemma show_int_3: "show_int 3 = ''3''"
  by code_simp

lemma classify_four_failures:
  assumes "failureThreshold cfg = 3" and "failureRateThreshold cfg = 80"
    and "f \<notin> set (safelistWorkflows cfg)"
  shows "classify cfg f 4 0 r 4
           = (True, [''4 consecutive failures (threshold: 3)'', ''No successful runs''])"
  using assms by (simp add: classify_def show_nat_4 show_int_3)

lemma four_failures_analysis:
  assumes "length (runsInWindow cfg ds repo workflow) = 4"
    and "\<forall>r \<in> set (runsInWindow cfg ds repo workflow). conclusion r = Some ''failure''"
    and "failureThreshold cfg = 3" and "failureRateThreshold cfg = 80"
    and "workflowFileName (wf_path workflow) \<notin> set (safelistWorkflows cfg)"
  shows "totalRuns (analyzeWorkflow cfg ds repo workflow) = 4"
    and "failedRuns (analyzeWorkflow cfg ds repo workflow) = 4"
    and "shouldDisable (analyzeWorkflow cfg ds repo workflow) = True"
    and "disableReason (analyzeWorkflow cfg ds repo workflow)
           = [''4 consecutive failures (threshold: 3)'', ''No successful runs'']"
  using assms(1) four_failures_metrics[OF assms(1,2)] classify_four_failures[OF assms(3,4,5)]
  by (simp_all add: analyzeWorkflow_def Let_def)

lemma example_runs:
  "runsInWindow example_config example_source ''api'' ci_workflow = replicate 4 failed_run"
  by (simp add: runsInWindow_def getWorkflowRuns_def example_source_def)

lemma example_four_failures:
  "length (runsInWindow example_config example_source ''api'' ci_workflow) = 4"
  "\<forall>r \<in> set (runsInWindow example_config example_source ''api'' ci_workflow).
     conclusion r = Some ''failure''"
  "failureThreshold example_config = 3"
  "failureRateThreshold example_config = 80"
  "workflowFileName (wf_path ci_workflow) \<notin> set (safelistWorkflows example_config)"
  by (simp_all add: example_runs failed_run_def) (simp_all add: example_config_def)

text \<open>
  Claim C1, as the code has it. A workflow that is not safelisted, with exactly four runs
  in the window, all of outcome failure, under failure threshold 3 and failure-rate
  threshold 80, is flagged with exactly two reasons: the consecutive-failures reason and
  \<open>No successful runs\<close>. The rate-based reason is absent (4 runs are fewer than 5).
\<close>

theorem four_failures_two_reasons:
  assumes "length (runsInWindow cfg ds repo workflow) = 4"
    and "\<forall>r \<in> set (runsInWindow cfg ds repo workflow). conclusion r = Some ''failure''"
    and "failureThreshold cfg = 3" and "failureRateThreshold cfg = 80"
    and "workflowFileName (wf_path workflow) \<notin> set (safelistWorkflows cfg)"
  shows "shouldDisable (analyzeWorkflow cfg ds repo workflow) = True
       \<and> disableReason (analyzeWorkflow cfg ds repo workflow)
           = [''4 consecutive failures (threshold: 3)'', ''No successful runs'']"
  using four_failures_analysis(3,4)[OF assms] by simp

theorem four_failures_two_reasons_witness:
  "length (runsInWindow example_config example_source ''api'' ci_workflow) = 4
   \<and> failureThreshold example_config = 3 \<and> failureRateThreshold example_config = 80
   \<and> workflowFileName (wf_path ci_workflow) \<notin> set (safelistWorkflows example_config)
   \<and> shouldDisable (analyzeWorkflow example_config example_source ''api'' ci_workflow) = True
   \<and> disableReason (analyzeWorkflow example_config example_source ''api'' ci_workflow)
         = [''4 consecutive failures (threshold: 3)'', ''No successful runs'']"
  using four_failures_two_reasons[OF example_four_failures] example_four_failures(1,3,4,5)
  by simp

text \<open>
  The claim as the specification words it (exactly one reason) fails on the example: four
  runs, four failures, thresholds 3 and 80, flagged, and the list of reasons does not
  have length one.
\<close>

theorem four_failures_not_one_reason:
  "totalRuns (analyzeWorkflow example_config example_source ''api'' ci_workflow) = 4
   \<and> failedRuns (analyzeWorkflow example_config example_source ''api'' ci_workflow) = 4
   \<and> failureThreshold example_config = 3 \<and> failureRateThreshold example_config = 80
   \<and> shouldDisable (analyzeWorkflow example_config example_source ''api'' ci_workflow) = True
   \<and> length (disableReason (analyzeWorkflow example_config example_source ''api'' ci_workflow)) \<noteq> 1"
  using four_failures_analysis[OF example_four_failures] example_four_failures(3,4) by simp

section \<open>Properties of the analysis pass\<close>

lemma analyzeRepository_fields:
  "ra_repository (analyzeRepository cfg ds repo) = repo"
  "workflows (analyzeRepository cfg ds repo) = map (analyzeWorkflow cfg ds repo) (getWorkflows ds repo)"
  by (simp_all add: analyzeRepository_def Let_def)

lemma analyze_loop_repositories:
  "repositoryAnalyses (analyze_loop cfg ds repos acc)
     = repositoryAnalyses acc
       @ filter (\<lambda>ra. workflows ra \<noteq> []) (map (analyzeRepository cfg ds) repos)"
  by (induction repos arbitrary: acc) (simp_all add: Let_def)

lemma analyze_report:
  assumes "analyze cfg ds = Some (Inr report)"
  obtains repos where "getOrganizationRepositories cfg ds = Some (Inr repos)"
    and "report = build_report cfg ds (analyze_loop cfg ds repos initial_accumulators)"
  using assms by (auto simp: analyze_def split: sum.splits option.splits)

lemma report_repositories:
  "repositories (build_report cfg ds (analyze_loop cfg ds repos initial_accumulators))
     = filter (\<lambda>ra. workflows ra \<noteq> []) (map (analyzeRepository cfg ds) repos)"
  by (simp add: build_report_def analyze_loop_repositories initial_accumulators_def)

lemma report_totalRepositories:
  "totalRepositories (build_report cfg ds acc) = length (repositories (build_report cfg ds acc))"
  by (simp add: build_report_def)

text \<open>
  Claim C9. In a report the pass returns, no repository for which the Data Source yields
  no workflow is listed, and \<^verbatim>\<open>totalRepositories\<close> is the number of listed repositories.
\<close>

theorem empty_repositories_omitted:
  assumes "analyze cfg ds = Some (Inr report)"
  shows "totalRepositories report = length (repositories report)
       \<and> (\<forall>repo. getWorkflows ds repo = [] \<longrightarrow> repo \<notin> ra_repository ` set (repositories report))"
proof -
  from assms obtain repos
    where r: "report = build_report cfg ds (analyze_loop cfg ds repos initial_accumulators)"
    by (rule analyze_report)
  have "totalRepositories report = length (repositories report)"
    unfolding r by (rule report_totalRepositories)
  moreover have "repo \<notin> ra_repository ` set (repositories report)" if "getWorkflows ds repo = []" for repo
    using that unfolding r report_repositories by (auto simp: analyzeRepository_fields)
  ultimately show ?thesis by blast
qed

lemma pages_loop_fails:
  assumes "listForOrg ds (page + k) = Inl e"
    and "\<forall>j<k. \<exists>names. listForOrg ds (page + j) = Inr names \<and> perPage \<le> length names"
  shows "pages_loop cfg ds page repos
           = Some (Inl (if err_status e = Some 404 then orgNotFound cfg else e))"
  using assms
proof (induction k arbitrary: page repos)
  case 0
  then show ?case by (subst pages_loop.simps) simp
next
  case (Suc k)
  from Suc.prems(2) obtain names where n: "listForOrg ds page = Inr names" "perPage \<le> length names"
    by force
  have "pages_loop cfg ds (page + 1) (repos @ names)
          = Some (Inl (if err_status e = Some 404 then orgNotFound cfg else e))"
  proof (rule Suc.IH)
    show "listForOrg ds (page + 1 + k) = Inl e" using Suc.prems(1) by simp
    show "\<forall>j<k. \<exists>names. listForOrg ds (page + 1 + j) = Inr names \<and> perPage \<le> length names"
      using Suc.prems(2) by (metis Suc_less_eq add_Suc_shift add.commute plus_1_eq_Suc add.assoc)
  qed
  moreover have "names \<noteq> []" using n(2) by (auto simp: perPage_def)
  ultimately show ?case using n by (subst pages_loop.simps) (simp add: perPage_def)
qed

lemma pages_loop_last:
  assumes "listForOrg ds page = Inr names" and "length names < perPage"
  shows "pages_loop cfg ds page repos = Some (Inr (repos @ names))"
  using assms by (subst pages_loop.simps) auto

lemma pages_loop_returns:
  assumes "listForOrg ds (page + k) = Inr names" and "length names < perPage"
    and "\<forall>j<k. \<exists>ns. listForOrg ds (page + j) = Inr ns \<and> perPage \<le> length ns"
  shows "\<exists>all_repos. pages_loop cfg ds page repos = Some (Inr all_repos)"
  using assms
proof (induction k arbitrary: page repos)
  case 0
  then have "pages_loop cfg ds page repos = Some (Inr (repos @ names))"
    using pages_loop_last[of ds page names cfg repos] by simp
  then show ?case by blast
next
  case (Suc k)
  from Suc.prems(3) obtain ns where n: "listForOrg ds page = Inr ns" "perPage \<le> length ns"
    by force
  have "\<exists>all_repos. pages_loop cfg ds (page + 1) (repos @ ns) = Some (Inr all_repos)"
  proof (rule Suc.IH)
    show "listForOrg ds (page + 1 + k) = Inr names" using Suc.prems(1) by simp
    show "length names < perPage" by (rule Suc.prems(2))
    show "\<forall>j<k. \<exists>ns. listForOrg ds (page + 1 + j) = Inr ns \<and> perPage \<le> length ns"
    proof (intro allI impI)
      fix j assume "j < k"
      then have "Suc j < Suc k" by simp
      then show "\<exists>ns. listForOrg ds (page + 1 + j) = Inr ns \<and> perPage \<le> length ns"
        using Suc.prems(3) by (metis add.assoc plus_1_eq_Suc)
    qed
  qed
  moreover have "ns \<noteq> []" using n(2) by (auto simp: perPage_def)
  ultimately show ?case using n by (subst pages_loop.simps) (simp add: perPage_def)
qed

lemma first_page_fails:
  assumes "listForOrg ds 1 = Inl e"
  shows "getOrganizationRepositories cfg ds
           = Some (Inl (if err_status e = Some 404 then orgNotFound cfg else e))"
  using pages_loop_fails[of ds 1 0 e cfg "[]"] assms
  by (simp add: getOrganizationRepositories_def)

lemma failed_runs_fetch:
  assumes "listWorkflowRuns ds repo (wf_id workflow) (''>='' @ sinceDate ds (timeWindowDays cfg)) = Inl e"
  shows "runsInWindow cfg ds repo workflow = []"
  using assms by (simp add: runsInWindow_def getWorkflowRuns_def)

lemma no_runs_metrics:
  assumes "runsInWindow cfg ds repo workflow = []"
  shows "totalRuns (analyzeWorkflow cfg ds repo workflow) = 0
       \<and> successfulRuns (analyzeWorkflow cfg ds repo workflow) = 0
       \<and> failedRuns (analyzeWorkflow cfg ds repo workflow) = 0
       \<and> failureRate (analyzeWorkflow cfg ds repo workflow) = 0
       \<and> consecutiveFailures (analyzeWorkflow cfg ds repo workflow) = 0
       \<and> lastRuns (analyzeWorkflow cfg ds repo workflow) = []
       \<and> lastSuccessfulRun (analyzeWorkflow cfg ds repo workflow) = None"
  using assms by (simp add: analyzeWorkflow_def Let_def)

lemma failed_workflows_fetch:
  assumes "listRepoWorkflows ds repo = Inl e"
  shows "getWorkflows ds repo = []"
  using assms by (simp add: getWorkflows_def)

lemma analyze_continues:
  assumes "checkRateLimit ds = Inr ()" and "getOrganizationRepositories cfg ds = Some (Inr repos)"
  shows "analyze cfg ds = Some (Inr (build_report cfg ds (analyze_loop cfg ds repos initial_accumulators)))"
  using assms by (simp add: analyze_def)

lemma analyze_aborts:
  assumes "checkRateLimit ds = Inr ()" and "getOrganizationRepositories cfg ds = Some (Inl e)"
  shows "analyze cfg ds = Some (Inl e)"
  using assms by (simp add: analyze_def)

text \<open>
  Claim C8, as the code has it. When the request for the run history of a workflow fails,
  the workflow is analysed as one with no runs (all metrics empty), and it is still one
  of the workflows of its repository's analysis. When the request for the workflows of a
  repository fails, the repository is analysed as one with no workflows. In both cases
  the pass goes on: once the quota check and the enumeration of the organization's
  repositories have succeeded, the pass returns a report, which lists exactly the
  repositories with at least one workflow. When the enumeration fails, the pass ends with
  that error; a failure of the first page request is such a failure (status 404 is
  reported as the organization not being found).
\<close>

theorem fetch_failures_degrade:
  "(listWorkflowRuns ds repo (wf_id workflow) (''>='' @ sinceDate ds (timeWindowDays cfg)) = Inl e \<longrightarrow>
      totalRuns (analyzeWorkflow cfg ds repo workflow) = 0
      \<and> successfulRuns (analyzeWorkflow cfg ds repo workflow) = 0
      \<and> failedRuns (analyzeWorkflow cfg ds repo workflow) = 0
      \<and> failureRate (analyzeWorkflow cfg ds repo workflow) = 0
      \<and> consecutiveFailures (analyzeWorkflow cfg ds repo workflow) = 0
      \<and> lastRuns (analyzeWorkflow cfg ds repo workflow) = []
      \<and> lastSuccessfulRun (analyzeWorkflow cfg ds repo workflow) = None)
   \<and> workflows (analyzeRepository cfg ds repo) = map (analyzeWorkflow cfg ds repo) (getWorkflows ds repo)
   \<and> (listRepoWorkflows ds repo = Inl e \<longrightarrow> workflows (analyzeRepository cfg ds repo) = [])
   \<and> (checkRateLimit ds = Inr () \<and> getOrganizationRepositories cfg ds = Some (Inr repos) \<longrightarrow>
        (\<exists>report. analyze cfg ds = Some (Inr report)
           \<and> repositories report
               = filter (\<lambda>ra. workflows ra \<noteq> []) (map (analyzeRepository cfg ds) repos)))
   \<and> (checkRateLimit ds = Inr () \<and> getOrganizationRepositories cfg ds = Some (Inl e) \<longrightarrow>
        analyze cfg ds = Some (Inl e))
   \<and> (listForOrg ds 1 = Inl e \<longrightarrow>
        getOrganizationRepositories cfg ds
          = Some (Inl (if err_status e = Some 404 then orgNotFound cfg else e)))"
  using failed_runs_fetch[THEN no_runs_metrics, of ds repo workflow cfg e]
    analyzeRepository_fields(2)[of cfg ds repo]
    failed_workflows_fetch[of ds repo e]
    analyze_continues[of ds cfg repos] report_repositories[of cfg ds repos]
    analyze_aborts[of ds cfg e] first_page_fails[of ds e cfg]
  by (intro conjI impI) simp_all


lemma two_repo_repositories:
  "getOrganizationRepositories example_config two_repo_source = Some (Inr [''api'', ''docs''])"
  by (simp add: getOrganizationRepositories_def two_repo_source_def perPage_def
        example_config_def pages_loop_last[where names = "[''api'', ''docs'']"])

lemma example_rate_limit:
  "checkRateLimit two_repo_source = Inr ()"
  "checkRateLimit no_workflows_source = Inr ()"
  "checkRateLimit no_runs_source = Inr ()"
  "checkRateLimit no_org_source = Inr ()"
  by (simp_all add: checkRateLimit_def two_repo_source_def no_workflows_source_def
        no_runs_source_def no_org_source_def example_source_def)

lemma two_repo_analyze:
  "analyze example_config two_repo_source
     = Some (Inr (build_report example_config two_repo_source
                    (analyze_loop example_config two_repo_source [''api'', ''docs''] initial_accumulators)))"
  using example_rate_limit(1) two_repo_repositories by (rule analyze_continues)

lemma two_repo_workflows:
  "getWorkflows two_repo_source ''api'' = [ci_workflow]"
  "getWorkflows two_repo_source ''docs'' = []"
  by (simp_all add: getWorkflows_def two_repo_source_def)

lemma two_repo_listed:
  "map ra_repository (repositories (build_report example_config two_repo_source
      (analyze_loop example_config two_repo_source [''api'', ''docs''] initial_accumulators))) = [''api'']"
  unfolding report_repositories by (simp add: analyzeRepository_fields two_repo_workflows)

text \<open>The witness: of the repositories \<open>api\<close> and \<open>docs\<close>, only \<open>api\<close> has a workflow.\<close>

theorem empty_repositories_omitted_witness:
  "analyze example_config two_repo_source
     = Some (Inr (build_report example_config two_repo_source
                    (analyze_loop example_config two_repo_source [''api'', ''docs''] initial_accumulators)))
   \<and> getWorkflows two_repo_source ''docs'' = []
   \<and> ''docs'' \<notin> ra_repository ` set (repositories (build_report example_config two_repo_source
                    (analyze_loop example_config two_repo_source [''api'', ''docs''] initial_accumulators)))
   \<and> totalRepositories (build_report example_config two_repo_source
                    (analyze_loop example_config two_repo_source [''api'', ''docs''] initial_accumulators)) = 1
   \<and> map ra_repository (repositories (build_report example_config two_repo_source
                    (analyze_loop example_config two_repo_source [''api'', ''docs''] initial_accumulators)))
       = [''api'']"
proof -
  let ?R = "build_report example_config two_repo_source
              (analyze_loop example_config two_repo_source [''api'', ''docs''] initial_accumulators)"
  have "length (repositories ?R) = 1"
    using two_repo_listed by (metis length_map length_Cons list.size(3) One_nat_def)
  then show ?thesis
    using empty_repositories_omitted[OF two_repo_analyze] two_repo_analyze two_repo_workflows(2) two_repo_listed
    by simp
qed

lemma one_repo_repositories:
  assumes "listForOrg ds = listForOrg example_source"
  shows "getOrganizationRepositories example_config ds = Some (Inr [''api''])"
proof -
  have "listForOrg ds 1 = Inr [''api'']"
    using assms by (simp add: example_source_def)
  then have "pages_loop example_config ds 1 [] = Some (Inr ([] @ [''api'']))"
    by (rule pages_loop_last) (simp add: perPage_def)
  then show ?thesis
    by (simp add: getOrganizationRepositories_def example_config_def)
qed

lemma no_workflows_fetch:
  "listRepoWorkflows no_workflows_source ''api'' = Inl server_error"
  by (simp add: no_workflows_source_def)

lemma no_workflows_repositories:
  "getOrganizationRepositories example_config no_workflows_source = Some (Inr [''api''])"
  by (rule one_repo_repositories) (simp add: no_workflows_source_def)

lemma no_workflows_loop:
  "analyze_loop example_config no_workflows_source [''api''] initial_accumulators = initial_accumulators"
  by (simp add: analyzeRepository_fields failed_workflows_fetch[OF no_workflows_fetch])

text \<open>
  The claim as the specification words it (the unit whose fetch failed appears in the
  report with empty metrics) fails for a repository: the request for the workflows of
  \<open>api\<close> fails, the pass returns a report, and the report lists no repository.
\<close>

theorem failed_repository_not_listed:
  "listRepoWorkflows no_workflows_source ''api'' = Inl server_error
   \<and> getOrganizationRepositories example_config no_workflows_source = Some (Inr [''api''])
   \<and> analyze example_config no_workflows_source
       = Some (Inr (build_report example_config no_workflows_source initial_accumulators))
   \<and> repositories (build_report example_config no_workflows_source initial_accumulators) = []"
  using no_workflows_fetch no_workflows_repositories no_workflows_loop
    analyze_continues[OF example_rate_limit(2) no_workflows_repositories]
  by (simp add: build_report_def initial_accumulators_def)

lemma no_runs_fetch:
  "listWorkflowRuns no_runs_source ''api'' (wf_id ci_workflow)
     (''>='' @ sinceDate no_runs_source (timeWindowDays example_config)) = Inl server_error"
  by (simp add: no_runs_source_def)

lemma no_runs_repositories:
  "getOrganizationRepositories example_config no_runs_source = Some (Inr [''api''])"
  by (rule one_repo_repositories) (simp add: no_runs_source_def)

lemma no_runs_workflows: "getWorkflows no_runs_source ''api'' = [ci_workflow]"
  by (simp add: getWorkflows_def no_runs_source_def example_source_def)

lemma no_org_fetch: "listForOrg no_org_source 1 = Inl (Error (Some 404) ''Not Found'')"
  by (simp add: no_org_source_def)

text \<open>
  The witness: a source whose run-history requests fail, one whose workflow-list requests
  fail, and one whose organization is not found.
\<close>

theorem fetch_failures_degrade_witness:
  "listWorkflowRuns no_runs_source ''api'' (wf_id ci_workflow)
     (''>='' @ sinceDate no_runs_source (timeWindowDays example_config)) = Inl server_error
   \<and> totalRuns (analyzeWorkflow example_config no_runs_source ''api'' ci_workflow) = 0
   \<and> failureRate (analyzeWorkflow example_config no_runs_source ''api'' ci_workflow) = 0
   \<and> workflows (analyzeRepository example_config no_runs_source ''api'')
       = [analyzeWorkflow example_config no_runs_source ''api'' ci_workflow]
   \<and> checkRateLimit no_runs_source = Inr ()
   \<and> getOrganizationRepositories example_config no_runs_source = Some (Inr [''api''])
   \<and> (\<exists>report. analyze example_config no_runs_source = Some (Inr report)
         \<and> repositories report = [analyzeRepository example_config no_runs_source ''api''])
   \<and> listRepoWorkflows no_workflows_source ''api'' = Inl server_error
   \<and> workflows (analyzeRepository example_config no_workflows_source ''api'') = []
   \<and> checkRateLimit no_org_source = Inr ()
   \<and> listForOrg no_org_source 1 = Inl (Error (Some 404) ''Not Found'')
   \<and> getOrganizationRepositories example_config no_org_source = Some (Inl (orgNotFound example_config))
   \<and> analyze example_config no_org_source = Some (Inl (orgNotFound example_config))"
proof -
  note runs = fetch_failures_degrade[of no_runs_source "''api''" ci_workflow example_config server_error "[''api'']"]
  note wfs = fetch_failures_degrade[of no_workflows_source "''api''" ci_workflow example_config server_error "[]"]
  note org = fetch_failures_degrade[of no_org_source "''api''" ci_workflow example_config "Error (Some 404) ''Not Found''" "[]"]
  note pass = fetch_failures_degrade[of no_org_source "''api''" ci_workflow example_config "orgNotFound example_config" "[]"]
  have 1: "totalRuns (analyzeWorkflow example_config no_runs_source ''api'' ci_workflow) = 0
         \<and> failureRate (analyzeWorkflow example_config no_runs_source ''api'' ci_workflow) = 0"
    using runs no_runs_fetch by blast
  have 2: "workflows (analyzeRepository example_config no_runs_source ''api'')
             = [analyzeWorkflow example_config no_runs_source ''api'' ci_workflow]"
    using runs no_runs_workflows by simp
  have "\<exists>report. analyze example_config no_runs_source = Some (Inr report)
          \<and> repositories report
              = filter (\<lambda>ra. workflows ra \<noteq> [])
                  (map (analyzeRepository example_config no_runs_source) [''api''])"
    using runs example_rate_limit(3) no_runs_repositories by blast
  then have 3: "\<exists>report. analyze example_config no_runs_source = Some (Inr report)
          \<and> repositories report = [analyzeRepository example_config no_runs_source ''api'']"
    using 2 by simp
  have 4: "workflows (analyzeRepository example_config no_workflows_source ''api'') = []"
    using wfs no_workflows_fetch by blast
  have 5: "getOrganizationRepositories example_config no_org_source
             = Some (Inl (orgNotFound example_config))"
    using org no_org_fetch by simp
  have 6: "analyze example_config no_org_source = Some (Inl (orgNotFound example_config))"
    using pass example_rate_limit(4) 5 by blast
  show ?thesis
    using 1 2 3 4 5 6 no_runs_fetch example_rate_limit(3,4) no_runs_repositories
      no_workflows_fetch no_org_fetch
    by blast
qed

section \<open>Properties of the lifecycle manager\<close>

subsection \<open>Dry runs\<close>

lemma same_files_refl: "same_files w w"
  by (simp add: same_files_def)

lemma same_files_trans: "same_files w w1 \<Longrightarrow> same_files w1 w2 \<Longrightarrow> same_files w w2"
  by (simp add: same_files_def)

lemma disableWorkflow_dry:
  "\<exists>d. disableWorkflow env cfg repo workflow True w = (Inr d, w \<lparr> ticks := ticks w + 2 \<rparr>)"
  by (simp add: disableWorkflow_def Let_def)

lemma disable_each_dry:
  "fst (disable_each env cfg repo True wfs (acc, w)) = None
   \<and> same_files w (snd (snd (disable_each env cfg repo True wfs (acc, w))))"
proof (induction wfs arbitrary: acc w)
  case Nil
  show ?case by (simp add: same_files_def)
next
  case (Cons workflow rest)
  obtain d where d: "disableWorkflow env cfg repo workflow True w = (Inr d, w \<lparr> ticks := ticks w + 2 \<rparr>)"
    using disableWorkflow_dry by blast
  have "same_files w (w \<lparr> ticks := ticks w + 2 \<rparr>)" by (simp add: same_files_def)
  then show ?case
    using Cons.IH[of "acc @ [d]" "w \<lparr> ticks := ticks w + 2 \<rparr>"] d
    by (auto intro: same_files_trans)
qed

lemma disable_repos_dry:
  "fst (disable_repos env cfg True repos (acc, w)) = None
   \<and> same_files w (snd (snd (disable_repos env cfg True repos (acc, w))))"
proof (induction repos arbitrary: acc w)
  case Nil
  show ?case by (simp add: same_files_def)
next
  case (Cons repo rest)
  let ?failing = "filter shouldDisable (workflows repo)"
  obtain acc1 w1 where e: "disable_each env cfg (ra_repository repo) True ?failing (acc, w) = (None, acc1, w1)"
    and s: "same_files w w1"
    using disable_each_dry[of env cfg "ra_repository repo" ?failing acc w]
    by (cases "disable_each env cfg (ra_repository repo) True ?failing (acc, w)") auto
  show ?case
    using Cons.IH[of acc w] Cons.IH[of acc1 w1] e s
    by (auto simp: Let_def intro: same_files_trans)
qed

lemma disableWorkflows_dry: "same_files w (snd (disableWorkflows env cfg report True w))"
proof (cases "write_error env (backupDirectory cfg)")
  case (Some msg)
  then show ?thesis by (simp add: disableWorkflows_def ensureDir_def same_files_def)
next
  case None
  let ?w0 = "w \<lparr> directories := insert (backupDirectory cfg) (directories w) \<rparr>"
  obtain acc w1 where r: "disable_repos env cfg True (repositories report) ([], ?w0) = (None, acc, w1)"
    and s: "same_files ?w0 w1"
    using disable_repos_dry[of env cfg "repositories report" "[]" ?w0]
    by (cases "disable_repos env cfg True (repositories report) ([], ?w0)") auto
  show ?thesis
    using None r s by (simp add: disableWorkflows_def ensureDir_def same_files_def Let_def)
qed

lemma restore_each_dry: "restore_each env True ws w = (None, w)"
  by (induction ws) (simp_all add: restoreWorkflow_def)

lemma restoreWorkflows_dry:
  assumes "opt_dryRun options = None \<or> opt_dryRun options = Some True"
  shows "snd (restoreWorkflows env manifestPath options w) = w"
proof -
  have "(case opt_dryRun options of None \<Rightarrow> True | Some b \<Rightarrow> b) = True"
    using assms by auto
  then show ?thesis
    by (simp add: restoreWorkflows_def Let_def restore_each_dry split: option.splits)
qed

text \<open>
  Claim C4. A dry run of the disable transition, and a dry run of the restore transition
  (\<^verbatim>\<open>dryRun\<close> true, or absent, which defaults to true), leaves every manifest file as
  it was, writes no backup file and adds no audit entry at all, for every report, every
  state and every behaviour of the file system.
\<close>

theorem dry_run_changes_nothing:
  "same_files w (snd (disableWorkflows env cfg report True w))
   \<and> same_files w (snd (restoreWorkflows env manifestPath (options \<lparr> opt_dryRun := Some True \<rparr>) w))
   \<and> same_files w (snd (restoreWorkflows env manifestPath (options \<lparr> opt_dryRun := None \<rparr>) w))"
  by (simp add: disableWorkflows_dry restoreWorkflows_dry same_files_refl)

subsection \<open>The option all\<close>

lemma restore_candidates_all:
  "restore_candidates (options \<lparr> opt_all := a \<rparr>) ws = restore_candidates options ws"
  by (simp add: restore_candidates_def)

lemma restoreWorkflows_all:
  "restoreWorkflows env manifestPath (options \<lparr> opt_all := a \<rparr>) w
     = restoreWorkflows env manifestPath options w"
  by (simp add: restoreWorkflows_def restore_candidates_all Let_def split: option.splits)

lemma restore_command_options_all:
  "restore_command_options (flags \<lparr> flag_all := a \<rparr>) = (restore_command_options flags) \<lparr> opt_all := a \<rparr>"
  by (simp add: restore_command_options_def)

text \<open>
  Claim C10. The option \<^verbatim>\<open>all\<close> does not influence the restore transition: with any two
  values of it the candidates are the same, and so are the outcome and the whole state
  left by \<^verbatim>\<open>restoreWorkflows\<close> (audit entries and manifest files included), also when the
  options come from the flags of the command line. With neither a repository filter nor
  a workflow filter, every record of the manifest is a candidate, whatever the flag.
\<close>

theorem all_flag_has_no_effect:
  "restore_candidates (options \<lparr> opt_all := a \<rparr>) ws = restore_candidates (options \<lparr> opt_all := b \<rparr>) ws
   \<and> restoreWorkflows env manifestPath (options \<lparr> opt_all := a \<rparr>) w
       = restoreWorkflows env manifestPath (options \<lparr> opt_all := b \<rparr>) w
   \<and> restoreWorkflows env manifestPath (restore_command_options (flags \<lparr> flag_all := a \<rparr>)) w
       = restoreWorkflows env manifestPath (restore_command_options (flags \<lparr> flag_all := b \<rparr>)) w
   \<and> restore_candidates (options \<lparr> opt_repo := None, opt_workflow := None, opt_all := a \<rparr>) ws = ws"
  by (simp add: restore_candidates_all restoreWorkflows_all restore_command_options_all)
     (simp add: restore_candidates_def)

subsection \<open>What the disable transition builds and writes\<close>

lemma flagged_flagged_in: "flagged report = flagged_in (repositories report)"
  by (simp add: flagged_def flagged_in_def)

lemma addEntry_manifests: "manifests (snd (addEntry env e w)) = manifests w"
  by (simp add: addEntry_def save_def Let_def split: option.splits)

lemma addEntry_ok: "writes_succeed env \<Longrightarrow> fst (addEntry env e w) = None"
  by (simp add: addEntry_def save_def Let_def writes_succeed_def)

lemma disabled_record_key:
  "record_key (disabled_record env cfg repo workflow w) = (repo, workflow)"
  "built_from_analysis (disabled_record env cfg repo workflow w)"
  by (simp_all add: disabled_record_def record_key_def built_from_analysis_def Let_def)

lemma disableWorkflow_Inr:
  assumes "disableWorkflow env cfg repo workflow dry w = (Inr d, w')"
  shows "d = disabled_record env cfg repo workflow w"
proof (cases dry)
  case True
  then show ?thesis using assms by (simp add: disableWorkflow_def Let_def)
next
  case False
  show ?thesis
  proof (cases "write_error env (backup_location env cfg repo workflow w)")
    case (Some msg)
    then show ?thesis using assms False by (simp add: disableWorkflow_def Let_def)
  next
    case None
    then show ?thesis using assms False
      by (simp add: disableWorkflow_def Let_def split: prod.splits option.splits)
  qed
qed

lemma disableWorkflow_manifests:
  "manifests (snd (disableWorkflow env cfg repo workflow dry w)) = manifests w"
proof (cases dry)
  case True
  then show ?thesis by (simp add: disableWorkflow_def Let_def)
next
  case False
  let ?b = "backup_location env cfg repo workflow w"
  let ?w2 = "w \<lparr> ticks := ticks w + 2, backups := backups w @ [(?b, workflow)] \<rparr>"
  show ?thesis
  proof (cases "write_error env ?b")
    case (Some msg)
    then show ?thesis using False by (simp add: disableWorkflow_def Let_def)
  next
    case None
    have "manifests (snd (addEntry env (backup_entry repo workflow ?b) ?w2)) = manifests w"
      by (simp add: addEntry_manifests)
    then show ?thesis using None False
      by (cases "addEntry env (backup_entry repo workflow ?b) ?w2")
         (simp add: disableWorkflow_def Let_def split: option.splits)
  qed
qed

lemma disableWorkflow_ok:
  assumes "writes_succeed env"
  shows "fst (disableWorkflow env cfg repo workflow dry w) = Inr (disabled_record env cfg repo workflow w)"
proof (cases dry)
  case True
  then show ?thesis by (simp add: disableWorkflow_def Let_def)
next
  case False
  let ?b = "backup_location env cfg repo workflow w"
  let ?w2 = "w \<lparr> ticks := ticks w + 2, backups := backups w @ [(?b, workflow)] \<rparr>"
  have "write_error env ?b = None" using assms by (simp add: writes_succeed_def)
  moreover have "fst (addEntry env (backup_entry repo workflow ?b) ?w2) = None"
    using assms by (rule addEntry_ok)
  ultimately show ?thesis using False
    by (cases "addEntry env (backup_entry repo workflow ?b) ?w2")
       (simp add: disableWorkflow_def Let_def)
qed

lemma disable_catch_manifests: "manifests (snd (disable_catch env repo workflow e w)) = manifests w"
  by (simp add: disable_catch_def addEntry_manifests)

lemma disable_each_step:
  "\<exists>acc1 w1.
      (acc1 = acc \<or> acc1 = acc @ [disabled_record env cfg repo workflow w])
      \<and> manifests w1 = manifests w
      \<and> (disable_each env cfg repo dry (workflow # rest) (acc, w)
             = disable_each env cfg repo dry rest (acc1, w1)
           \<or> (\<exists>e. disable_each env cfg repo dry (workflow # rest) (acc, w) = (Some e, acc1, w1)))"
proof -
  obtain x w1 where dw: "disableWorkflow env cfg repo workflow dry w = (x, w1)"
    by (cases "disableWorkflow env cfg repo workflow dry w")
  have m1: "manifests w1 = manifests w"
    using disableWorkflow_manifests[of env cfg repo workflow dry w] dw by simp
  show ?thesis
  proof (cases x)
    case (Inl e)
    obtain y w2 where c: "disable_catch env repo workflow e w1 = (y, w2)"
      by (cases "disable_catch env repo workflow e w1")
    have m2: "manifests w2 = manifests w"
      using disable_catch_manifests[of env repo workflow e w1] c m1 by simp
    show ?thesis
      using dw Inl c m2 by (cases y) auto
  next
    case (Inr d)
    then have d: "d = disabled_record env cfg repo workflow w"
      using dw disableWorkflow_Inr by blast
    show ?thesis
    proof (cases dry)
      case True
      then show ?thesis using dw Inr d m1 by auto
    next
      case False
      obtain y w2 where a: "addEntry env (disable_entry repo workflow d) w1 = (y, w2)"
        by (cases "addEntry env (disable_entry repo workflow d) w1")
      have m2: "manifests w2 = manifests w"
        using addEntry_manifests[of env "disable_entry repo workflow d" w1] a m1 by simp
      show ?thesis
      proof (cases y)
        case None
        then show ?thesis using dw Inr d False a m2 by auto
      next
        case (Some e)
        obtain z w3 where c: "disable_catch env repo workflow e w2 = (z, w3)"
          by (cases "disable_catch env repo workflow e w2")
        have m3: "manifests w3 = manifests w"
          using disable_catch_manifests[of env repo workflow e w2] c m2 by simp
        show ?thesis
          using dw Inr d False a Some c m3 by (cases z) auto
      qed
    qed
  qed
qed

lemma disable_each_built:
  "\<exists>new. fst (snd (disable_each env cfg repo dry wfs (acc, w))) = acc @ new
      \<and> subseq (map record_key new) (map (Pair repo) wfs)
      \<and> (\<forall>d \<in> set new. built_from_analysis d)
      \<and> manifests (snd (snd (disable_each env cfg repo dry wfs (acc, w)))) = manifests w"
proof (induction wfs arbitrary: acc w)
  case Nil
  show ?case by simp
next
  case (Cons workflow rest)
  let ?d = "disabled_record env cfg repo workflow w"
  obtain acc1 w1 where acc1: "acc1 = acc \<or> acc1 = acc @ [?d]"
    and m: "manifests w1 = manifests w"
    and step: "disable_each env cfg repo dry (workflow # rest) (acc, w)
                 = disable_each env cfg repo dry rest (acc1, w1)
               \<or> (\<exists>e. disable_each env cfg repo dry (workflow # rest) (acc, w) = (Some e, acc1, w1))"
    using disable_each_step[of acc env cfg repo workflow w dry rest] by blast
  obtain pre where pre: "acc1 = acc @ pre" "pre = [] \<or> pre = [?d]"
    using acc1 by auto
  have pre_sub: "subseq (map record_key pre) [(repo, workflow)]"
    using pre(2) by (auto simp: disabled_record_key)
  have pre_built: "\<forall>d \<in> set pre. built_from_analysis d"
    using pre(2) by (auto simp: disabled_record_key)
  from step show ?case
  proof
    assume eq: "disable_each env cfg repo dry (workflow # rest) (acc, w)
                  = disable_each env cfg repo dry rest (acc1, w1)"
    obtain new where new: "fst (snd (disable_each env cfg repo dry rest (acc1, w1))) = acc1 @ new"
      "subseq (map record_key new) (map (Pair repo) rest)"
      "\<forall>d \<in> set new. built_from_analysis d"
      "manifests (snd (snd (disable_each env cfg repo dry rest (acc1, w1)))) = manifests w1"
      using Cons.IH[of acc1 w1] by blast
    have "subseq (map record_key pre @ map record_key new) ([(repo, workflow)] @ map (Pair repo) rest)"
      using pre_sub new(2) by (rule list_emb_append_mono)
    then have "subseq (map record_key (pre @ new)) (map (Pair repo) (workflow # rest))"
      by simp
    moreover have "\<forall>d \<in> set (pre @ new). built_from_analysis d"
      using pre_built new(3) by auto
    moreover have "fst (snd (disable_each env cfg repo dry (workflow # rest) (acc, w))) = acc @ (pre @ new)"
      using eq new(1) pre(1) by simp
    moreover have "manifests (snd (snd (disable_each env cfg repo dry (workflow # rest) (acc, w)))) = manifests w"
      using eq new(4) m by simp
    ultimately show ?thesis by blast
  next
    assume "\<exists>e. disable_each env cfg repo dry (workflow # rest) (acc, w) = (Some e, acc1, w1)"
    then obtain e where eq: "disable_each env cfg repo dry (workflow # rest) (acc, w) = (Some e, acc1, w1)"
      by blast
    have "subseq (map record_key pre) (map (Pair repo) (workflow # rest))"
      using pre(2) by (auto simp: disabled_record_key)
    then show ?thesis
      using eq pre(1) pre_built m by (intro exI[of _ pre]) simp
  qed
qed

lemma disable_each_step_ok:
  assumes "writes_succeed env"
  shows "\<exists>w1. disable_each env cfg repo dry (workflow # rest) (acc, w)
               = disable_each env cfg repo dry rest (acc @ [disabled_record env cfg repo workflow w], w1)"
proof -
  let ?d = "disabled_record env cfg repo workflow w"
  obtain w1 where dw: "disableWorkflow env cfg repo workflow dry w = (Inr ?d, w1)"
    using disableWorkflow_ok[OF assms, of cfg repo workflow dry w]
    by (cases "disableWorkflow env cfg repo workflow dry w") simp
  obtain w2 where a: "addEntry env (disable_entry repo workflow ?d) w1 = (None, w2)"
    using addEntry_ok[OF assms, of "disable_entry repo workflow ?d" w1]
    by (cases "addEntry env (disable_entry repo workflow ?d) w1") simp
  show ?thesis using dw a by (cases dry) auto
qed

lemma disable_each_ok:
  assumes "writes_succeed env"
  shows "fst (disable_each env cfg repo dry wfs (acc, w)) = None
       \<and> (\<exists>new. fst (snd (disable_each env cfg repo dry wfs (acc, w))) = acc @ new
              \<and> map record_key new = map (Pair repo) wfs)"
proof (induction wfs arbitrary: acc w)
  case Nil
  show ?case by simp
next
  case (Cons workflow rest)
  let ?d = "disabled_record env cfg repo workflow w"
  obtain w1 where step: "disable_each env cfg repo dry (workflow # rest) (acc, w)
                           = disable_each env cfg repo dry rest (acc @ [?d], w1)"
    using disable_each_step_ok[OF assms] by blast
  obtain new where new: "fst (disable_each env cfg repo dry rest (acc @ [?d], w1)) = None"
    "fst (snd (disable_each env cfg repo dry rest (acc @ [?d], w1))) = (acc @ [?d]) @ new"
    "map record_key new = map (Pair repo) rest"
    using Cons.IH[of "acc @ [?d]" w1] by blast
  have "map record_key (?d # new) = map (Pair repo) (workflow # rest)"
    using new(3) by (simp add: disabled_record_key)
  then show ?case
    using step new(1,2) by (intro conjI exI[of _ "?d # new"]) simp_all
qed

lemma flagged_in_Cons:
  "flagged_in (repo # rest)
     = map (Pair (ra_repository repo)) (filter shouldDisable (workflows repo)) @ flagged_in rest"
  by (simp add: flagged_in_def)

lemma disable_repos_built:
  "\<exists>new. fst (snd (disable_repos env cfg dry repos (acc, w))) = acc @ new
      \<and> subseq (map record_key new) (flagged_in repos)
      \<and> (\<forall>d \<in> set new. built_from_analysis d)
      \<and> manifests (snd (snd (disable_repos env cfg dry repos (acc, w)))) = manifests w"
proof (induction repos arbitrary: acc w)
  case Nil
  show ?case by (simp add: flagged_in_def)
next
  case (Cons repo rest)
  let ?failing = "filter shouldDisable (workflows repo)"
  let ?r = "disable_each env cfg (ra_repository repo) dry ?failing (acc, w)"
  show ?case
  proof (cases "?failing = []")
    case True
    then show ?thesis using Cons.IH[of acc w] by (simp add: flagged_in_Cons)
  next
    case False
    obtain y acc1 w1 where r: "?r = (y, acc1, w1)" by (cases ?r)
    obtain pre where pre: "acc1 = acc @ pre"
      "subseq (map record_key pre) (map (Pair (ra_repository repo)) ?failing)"
      "\<forall>d \<in> set pre. built_from_analysis d" "manifests w1 = manifests w"
      using disable_each_built[of env cfg "ra_repository repo" dry ?failing acc w] r by auto
    show ?thesis
    proof (cases y)
      case (Some e)
      have "subseq (map record_key pre) (flagged_in (repo # rest))"
        unfolding flagged_in_Cons
        using list_emb_append_mono[OF pre(2) list_emb_Nil, of "flagged_in rest"] by simp
      then show ?thesis
        using r Some False pre by (intro exI[of _ pre]) simp
    next
      case None
      obtain new where new: "fst (snd (disable_repos env cfg dry rest (acc1, w1))) = acc1 @ new"
        "subseq (map record_key new) (flagged_in rest)"
        "\<forall>d \<in> set new. built_from_analysis d"
        "manifests (snd (snd (disable_repos env cfg dry rest (acc1, w1)))) = manifests w1"
        using Cons.IH[of acc1 w1] by blast
      have "subseq (map record_key pre @ map record_key new) (flagged_in (repo # rest))"
        unfolding flagged_in_Cons using pre(2) new(2) by (rule list_emb_append_mono)
      then have "subseq (map record_key (pre @ new)) (flagged_in (repo # rest))" by simp
      moreover have "\<forall>d \<in> set (pre @ new). built_from_analysis d"
        using pre(3) new(3) by auto
      ultimately show ?thesis
        using r None False pre(1,4) new(1,4) by (intro exI[of _ "pre @ new"]) simp
    qed
  qed
qed

lemma disable_repos_ok:
  assumes "writes_succeed env"
  shows "fst (disable_repos env cfg dry repos (acc, w)) = None
       \<and> (\<exists>new. fst (snd (disable_repos env cfg dry repos (acc, w))) = acc @ new
              \<and> map record_key new = flagged_in repos)"
proof (induction repos arbitrary: acc w)
  case Nil
  show ?case by (simp add: flagged_in_def)
next
  case (Cons repo rest)
  let ?failing = "filter shouldDisable (workflows repo)"
  let ?r = "disable_each env cfg (ra_repository repo) dry ?failing (acc, w)"
  show ?case
  proof (cases "?failing = []")
    case True
    then show ?thesis using Cons.IH[of acc w] by (simp add: flagged_in_Cons)
  next
    case False
    obtain pre w1 where r: "?r = (None, acc @ pre, w1)"
      and pre: "map record_key pre = map (Pair (ra_repository repo)) ?failing"
      using disable_each_ok[OF assms, of cfg "ra_repository repo" dry ?failing acc w]
      by (cases ?r) auto
    obtain new where new: "fst (disable_repos env cfg dry rest (acc @ pre, w1)) = None"
      "fst (snd (disable_repos env cfg dry rest (acc @ pre, w1))) = (acc @ pre) @ new"
      "map record_key new = flagged_in rest"
      using Cons.IH[of "acc @ pre" w1] by blast
    have "map record_key (pre @ new) = flagged_in (repo # rest)"
      using pre new(3) by (simp add: flagged_in_Cons)
    then show ?thesis
      using r False new(1,2) by (intro conjI exI[of _ "pre @ new"]) simp_all
  qed
qed

lemma disableWorkflows_Inr:
  assumes "fst (disableWorkflows env cfg report False w) = Inr m"
  shows "manifests (snd (disableWorkflows env cfg report False w)) = (manifests w)(manifest_path \<mapsto> m)"
    and "subseq (map record_key (disabledWorkflows m)) (flagged report)"
    and "\<forall>d \<in> set (disabledWorkflows m). built_from_analysis d"
proof -
  let ?w0 = "w \<lparr> directories := insert (backupDirectory cfg) (directories w) \<rparr>"
  let ?r = "disable_repos env cfg False (repositories report) ([], ?w0)"
  have dir: "write_error env (backupDirectory cfg) = None"
    using assms by (cases "write_error env (backupDirectory cfg)")
      (simp_all add: disableWorkflows_def ensureDir_def)
  obtain y acc w1 where r: "?r = (y, acc, w1)" by (cases ?r)
  have y: "y = None"
    using assms dir r by (cases y) (simp_all add: disableWorkflows_def ensureDir_def)
  have mf: "write_error env manifest_path = None"
    using assms dir r y by (cases "write_error env manifest_path")
      (simp_all add: disableWorkflows_def ensureDir_def Let_def)
  have m: "m = \<lparr> mf_timestamp = clock env (ticks w1), disabledWorkflows = acc \<rparr>"
    using assms dir r y mf by (simp add: disableWorkflows_def ensureDir_def Let_def)
  have w': "manifests (snd (disableWorkflows env cfg report False w)) = (manifests w1)(manifest_path \<mapsto> m)"
    using dir r y mf m by (simp add: disableWorkflows_def ensureDir_def Let_def)
  have built: "subseq (map record_key acc) (flagged_in (repositories report))"
    "\<forall>d \<in> set acc. built_from_analysis d" "manifests w1 = manifests w"
    using disable_repos_built[of env cfg False "repositories report" "[]" ?w0] r by auto
  show "manifests (snd (disableWorkflows env cfg report False w)) = (manifests w)(manifest_path \<mapsto> m)"
    using w' built(3) by simp
  show "subseq (map record_key (disabledWorkflows m)) (flagged report)"
    using built(1) m by (simp add: flagged_flagged_in)
  show "\<forall>d \<in> set (disabledWorkflows m). built_from_analysis d"
    using built(2) m by simp
qed

lemma disableWorkflows_ok:
  assumes "writes_succeed env"
  shows "\<exists>m. fst (disableWorkflows env cfg report dry w) = Inr m
             \<and> map record_key (disabledWorkflows m) = flagged report"
proof -
  let ?w0 = "w \<lparr> directories := insert (backupDirectory cfg) (directories w) \<rparr>"
  let ?r = "disable_repos env cfg dry (repositories report) ([], ?w0)"
  have wr: "write_error env (backupDirectory cfg) = None" "write_error env manifest_path = None"
    using assms by (simp_all add: writes_succeed_def)
  obtain acc w1 where r: "?r = (None, acc, w1)"
    and acc: "map record_key acc = flagged_in (repositories report)"
    using disable_repos_ok[OF assms, of cfg dry "repositories report" "[]" ?w0]
    by (cases ?r) auto
  show ?thesis
    using wr r acc by (simp add: disableWorkflows_def ensureDir_def Let_def flagged_flagged_in)
qed

subsection \<open>What the restore transition writes\<close>

lemma restore_catch_manifests: "manifests (snd (restore_catch env workflow e w)) = manifests w"
  by (simp add: restore_catch_def addEntry_manifests)

lemma restore_each_manifests: "manifests (snd (restore_each env dry ws w)) = manifests w"
proof (induction ws arbitrary: w)
  case Nil
  show ?case by simp
next
  case (Cons workflow rest)
  show ?case
  proof (cases dry)
    case True
    then show ?thesis using Cons.IH[of w] by (simp add: restoreWorkflow_def)
  next
    case False
    obtain y w2 where a: "addEntry env (restore_entry workflow) w = (y, w2)"
      by (cases "addEntry env (restore_entry workflow) w")
    have m2: "manifests w2 = manifests w"
      using addEntry_manifests[of env "restore_entry workflow" w] a by simp
    show ?thesis
    proof (cases y)
      case None
      then show ?thesis using False a m2 Cons.IH[of w2] by (simp add: restoreWorkflow_def)
    next
      case (Some e)
      obtain z w3 where c: "restore_catch env workflow e w2 = (z, w3)"
        by (cases "restore_catch env workflow e w2")
      have m3: "manifests w3 = manifests w"
        using restore_catch_manifests[of env workflow e w2] c m2 by simp
      show ?thesis
        using False a Some c m3 Cons.IH[of w3] by (cases z) (simp_all add: restoreWorkflow_def)
    qed
  qed
qed

lemma restore_each_ok:
  assumes "writes_succeed env"
  shows "fst (restore_each env dry ws w) = None"
proof (induction ws arbitrary: w)
  case Nil
  show ?case by simp
next
  case (Cons workflow rest)
  obtain w2 where a: "addEntry env (restore_entry workflow) w = (None, w2)"
    using addEntry_ok[OF assms, of "restore_entry workflow" w]
    by (cases "addEntry env (restore_entry workflow) w") simp
  show ?case
    using a Cons.IH[of w] Cons.IH[of w2] by (cases dry) (simp_all add: restoreWorkflow_def)
qed

lemma restoreWorkflows_live:
  assumes "writes_succeed env" and "manifests w p = Some m"
    and "opt_dryRun options = Some False"
    and "restore_candidates options (disabledWorkflows m) \<noteq> []"
  shows "fst (restoreWorkflows env p options w) = None"
    and "manifests (snd (restoreWorkflows env p options w))
           = (manifests w)(p \<mapsto> m \<lparr> disabledWorkflows :=
                 filter (\<lambda>x. x \<notin> set (restore_candidates options (disabledWorkflows m)))
                   (disabledWorkflows m) \<rparr>)"
proof -
  let ?cs = "restore_candidates options (disabledWorkflows m)"
  obtain w1 where r: "restore_each env False ?cs w = (None, w1)"
    using restore_each_ok[OF assms(1), of False ?cs w] by (cases "restore_each env False ?cs w") simp
  have m1: "manifests w1 = manifests w"
    using restore_each_manifests[of env False ?cs w] r by simp
  have wr: "write_error env p = None"
    using assms(1) by (simp add: writes_succeed_def)
  show "fst (restoreWorkflows env p options w) = None"
    using assms(2,3,4) r wr by (simp add: restoreWorkflows_def Let_def)
  show "manifests (snd (restoreWorkflows env p options w))
           = (manifests w)(p \<mapsto> m \<lparr> disabledWorkflows :=
                 filter (\<lambda>x. x \<notin> set ?cs) (disabledWorkflows m) \<rparr>)"
    using assms(2,3,4) r wr m1 by (simp add: restoreWorkflows_def Let_def)
qed

subsection \<open>The manifest after a disable and after a restore\<close>



lemma both_filters_candidates:
  assumes "r \<noteq> []" and "f \<noteq> []"
  shows "restore_candidates (both_filters r f a) ws = filter (selected r f) ws"
proof -
  have "selected r f = (\<lambda>x. dw_repository x = r \<and> sublist f (originalPath x))"
    by (rule ext) (simp add: selected_def)
  then show ?thesis
    using assms by (simp add: restore_candidates_def both_filters_def Let_def conj_commute)
qed

lemma remaining_filter:
  "filter (\<lambda>x. x \<notin> set (filter P ws)) ws = filter (\<lambda>x. \<not> P x) ws"
  by (rule filter_cong) auto

lemma restoreWorkflows_none:
  assumes "manifests w p = Some m" and "restore_candidates options (disabledWorkflows m) = []"
  shows "restoreWorkflows env p options w = (None, w)"
  using assms by (simp add: restoreWorkflows_def Let_def)

lemma restoreWorkflows_both_filters:
  assumes "writes_succeed env" and "manifests w p = Some m" and "r \<noteq> []" and "f \<noteq> []"
  shows "fst (restoreWorkflows env p (both_filters r f a) w) = None"
    and "manifests (snd (restoreWorkflows env p (both_filters r f a) w)) p
           = Some (m \<lparr> disabledWorkflows :=
                        filter (\<lambda>x. \<not> selected r f x) (disabledWorkflows m) \<rparr>)"
proof -
  let ?ws = "disabledWorkflows m"
  have c: "restore_candidates (both_filters r f a) ?ws = filter (selected r f) ?ws"
    using assms(3,4) by (rule both_filters_candidates)
  have live: "opt_dryRun (both_filters r f a) = Some False"
    by (simp add: both_filters_def)
  show "fst (restoreWorkflows env p (both_filters r f a) w) = None"
  proof (cases "filter (selected r f) ?ws = []")
    case True
    then show ?thesis using restoreWorkflows_none[OF assms(2), of "both_filters r f a" env] c by simp
  next
    case False
    then have "restore_candidates (both_filters r f a) ?ws \<noteq> []" using c by simp
    then show ?thesis by (rule restoreWorkflows_live(1)[OF assms(1,2) live])
  qed
  show "manifests (snd (restoreWorkflows env p (both_filters r f a) w)) p
           = Some (m \<lparr> disabledWorkflows := filter (\<lambda>x. \<not> selected r f x) ?ws \<rparr>)"
  proof (cases "filter (selected r f) ?ws = []")
    case True
    then have "filter (\<lambda>x. \<not> selected r f x) ?ws = ?ws"
      by (simp add: filter_empty_conv)
    then show ?thesis
      using restoreWorkflows_none[OF assms(2), of "both_filters r f a" env] c True assms(2) by simp
  next
    case False
    then have ne: "restore_candidates (both_filters r f a) ?ws \<noteq> []" using c by simp
    show ?thesis
      unfolding restoreWorkflows_live(2)[OF assms(1,2) live ne] c remaining_filter by simp
  qed
qed

lemma only_selected:
  assumes "d \<in> set ws" and "selected r f d"
    and "\<forall>x \<in> set ws. selected r f x \<longrightarrow> x = d"
  shows "filter (\<lambda>x. \<not> selected r f x) ws = filter (\<lambda>x. x \<noteq> d) ws"
proof (rule filter_cong)
  show "ws = ws" by simp
  fix x assume "x \<in> set ws"
  then show "(\<not> selected r f x) = (x \<noteq> d)" using assms(2,3) by blast
qed

lemma distinct_remove_one:
  assumes "distinct ws" and "d \<in> set ws"
  shows "length (filter (\<lambda>x. x \<noteq> d) ws) + 1 = length ws"
proof -
  have "{x. x = d} \<inter> set ws = {d}" using assms(2) by auto
  then have "length (filter (\<lambda>x. x = d) ws) = 1"
    using distinct_length_filter[OF assms(1), of "\<lambda>x. x = d"] by simp
  then show ?thesis
    using sum_length_filter_compl[of "\<lambda>x. x = d" ws] by simp
qed

lemma distinct_records:
  assumes "map record_key ws = flagged report" and "distinct (flagged report)"
  shows "distinct ws"
proof -
  have "distinct (map record_key ws)" using assms by simp
  then show ?thesis by (simp add: distinct_map)
qed

text \<open>
  Claim C2, as the code has it. On a file system where no write fails, a live disable
  transition returns a manifest and stores it in the manifest file; the manifest has, in
  the order of the report, exactly one record for every workflow the report flags. A
  live restore transition that follows, with a repository filter \<open>r\<close> and a workflow
  filter \<open>f\<close> (both not empty), succeeds and leaves in the file the same manifest, with
  the same timestamp, without the records whose repository is \<open>r\<close> and whose original
  path contains \<open>f\<close>; all other records are kept, in their order. When a record \<open>d\<close> of
  the manifest is the only one the two filters select, what is left is the manifest
  without \<open>d\<close>, and it has one record fewer when the report flags no workflow twice.
  The content that the file had before the disable transition is not part of the result.
\<close>

theorem disable_then_restore:
  assumes "writes_succeed env"
  shows "\<exists>m. fst (disableWorkflows env cfg report False w) = Inr m
           \<and> manifests (snd (disableWorkflows env cfg report False w)) manifest_path = Some m
           \<and> map record_key (disabledWorkflows m) = flagged report
           \<and> (\<forall>r f a. r \<noteq> [] \<and> f \<noteq> [] \<longrightarrow>
                 fst (restoreWorkflows env manifest_path (both_filters r f a)
                        (snd (disableWorkflows env cfg report False w))) = None
                 \<and> manifests (snd (restoreWorkflows env manifest_path (both_filters r f a)
                                     (snd (disableWorkflows env cfg report False w)))) manifest_path
                     = Some (m \<lparr> disabledWorkflows :=
                                  filter (\<lambda>x. \<not> selected r f x) (disabledWorkflows m) \<rparr>)
                 \<and> (\<forall>d. d \<in> set (disabledWorkflows m) \<and> selected r f d
                          \<and> (\<forall>x \<in> set (disabledWorkflows m). selected r f x \<longrightarrow> x = d) \<longrightarrow>
                        filter (\<lambda>x. \<not> selected r f x) (disabledWorkflows m)
                          = filter (\<lambda>x. x \<noteq> d) (disabledWorkflows m)
                        \<and> (distinct (flagged report) \<longrightarrow>
                             length (filter (\<lambda>x. x \<noteq> d) (disabledWorkflows m)) + 1
                               = length (disabledWorkflows m))))"
proof -
  let ?w1 = "snd (disableWorkflows env cfg report False w)"
  obtain m where m: "fst (disableWorkflows env cfg report False w) = Inr m"
    and k: "map record_key (disabledWorkflows m) = flagged report"
    using disableWorkflows_ok[OF assms, of cfg report False w] by blast
  have w1: "manifests ?w1 manifest_path = Some m"
    using disableWorkflows_Inr(1)[OF m] by simp
  note restore = restoreWorkflows_both_filters[OF assms w1]
  have ws: "distinct (disabledWorkflows m)" if "distinct (flagged report)"
    using k that by (rule distinct_records)
  have "\<forall>r f a. r \<noteq> [] \<and> f \<noteq> [] \<longrightarrow>
                 fst (restoreWorkflows env manifest_path (both_filters r f a) ?w1) = None
                 \<and> manifests (snd (restoreWorkflows env manifest_path (both_filters r f a) ?w1)) manifest_path
                     = Some (m \<lparr> disabledWorkflows :=
                                  filter (\<lambda>x. \<not> selected r f x) (disabledWorkflows m) \<rparr>)
                 \<and> (\<forall>d. d \<in> set (disabledWorkflows m) \<and> selected r f d
                          \<and> (\<forall>x \<in> set (disabledWorkflows m). selected r f x \<longrightarrow> x = d) \<longrightarrow>
                        filter (\<lambda>x. \<not> selected r f x) (disabledWorkflows m)
                          = filter (\<lambda>x. x \<noteq> d) (disabledWorkflows m)
                        \<and> (distinct (flagged report) \<longrightarrow>
                             length (filter (\<lambda>x. x \<noteq> d) (disabledWorkflows m)) + 1
                               = length (disabledWorkflows m)))"
  proof (intro allI impI conjI)
    fix r f :: string and a :: "bool option"
    assume "r \<noteq> [] \<and> f \<noteq> []"
    then have r: "r \<noteq> []" and f: "f \<noteq> []" by simp_all
    show "fst (restoreWorkflows env manifest_path (both_filters r f a) ?w1) = None"
      by (rule restore(1)[OF r f])
    show "manifests (snd (restoreWorkflows env manifest_path (both_filters r f a) ?w1)) manifest_path
            = Some (m \<lparr> disabledWorkflows := filter (\<lambda>x. \<not> selected r f x) (disabledWorkflows m) \<rparr>)"
      by (rule restore(2)[OF r f])
  next
    fix r f :: string and d
    assume "d \<in> set (disabledWorkflows m) \<and> selected r f d
               \<and> (\<forall>x \<in> set (disabledWorkflows m). selected r f x \<longrightarrow> x = d)"
    then have d: "d \<in> set (disabledWorkflows m)" and s: "selected r f d"
      and u: "\<forall>x \<in> set (disabledWorkflows m). selected r f x \<longrightarrow> x = d"
      by simp_all
    show "filter (\<lambda>x. \<not> selected r f x) (disabledWorkflows m) = filter (\<lambda>x. x \<noteq> d) (disabledWorkflows m)"
      using d s u by (rule only_selected)
    assume "distinct (flagged report)"
    then have "distinct (disabledWorkflows m)" by (rule ws)
    then show "length (filter (\<lambda>x. x \<noteq> d) (disabledWorkflows m)) + 1 = length (disabledWorkflows m)"
      using d by (rule distinct_remove_one)
  qed
  then show ?thesis using m w1 k by (intro exI[of _ m] conjI)
qed

subsection \<open>The example: a stale manifest, a disable, a restore\<close>

lemma example_env_fields:
  "clock example_env n = ''2024-01-08T00:00:00.000Z''"
  "write_error example_env p = None"
  by (simp_all add: example_env_def)

lemma example_writes_succeed: "writes_succeed example_env"
  by (simp add: writes_succeed_def example_env_fields)

lemma example_workflows: "getWorkflows example_source ''api'' = [ci_workflow]"
  by (simp add: getWorkflows_def example_source_def)

lemma flagged_ci_flagged: "shouldDisable flagged_ci"
  unfolding flagged_ci_def using four_failures_analysis(3)[OF example_four_failures] by simp

lemma flagged_ci_path: "workflowPath flagged_ci = ''.github/workflows/ci.yml''"
  by (simp add: flagged_ci_def analyzeWorkflow_def Let_def ci_workflow_def)

lemma example_repository:
  "ra_repository (analyzeRepository example_config example_source ''api'') = ''api''"
  "workflows (analyzeRepository example_config example_source ''api'') = [flagged_ci]"
  by (simp_all add: analyzeRepository_fields example_workflows flagged_ci_def)

lemma example_report_repositories:
  "repositories example_report = [analyzeRepository example_config example_source ''api'']"
  unfolding example_report_def report_repositories by (simp add: example_repository)

lemma example_report_analyzed: "analyze example_config example_source = Some (Inr example_report)"
proof -
  have "checkRateLimit example_source = Inr ()"
    by (simp add: checkRateLimit_def example_source_def)
  moreover have "getOrganizationRepositories example_config example_source = Some (Inr [''api''])"
    by (rule one_repo_repositories) simp
  ultimately show ?thesis
    unfolding example_report_def by (rule analyze_continues)
qed

lemma example_flagged: "flagged example_report = [(''api'', flagged_ci)]"
  by (simp add: flagged_def example_report_repositories example_repository flagged_ci_flagged)

lemma ci_record_any_state:
  "disabled_record example_env example_config ''api'' flagged_ci w = ci_record"
  by (simp add: ci_record_def disabled_record_def backup_location_def example_env_fields Let_def)

lemma ci_record_fields:
  "dw_repository ci_record = ''api''"
  "originalPath ci_record = ''.github/workflows/ci.yml''"
  by (simp_all add: ci_record_def disabled_record_def Let_def flagged_ci_path)

lemma old_record_fields:
  "dw_repository old_record = ''web''"
  "originalPath old_record = ''.github/workflows/deploy.yml''"
  by (simp_all add: old_record_def disabled_record_def Let_def)

lemma old_record_differs: "old_record \<noteq> ci_record"
  using ci_record_fields(1) old_record_fields(1) by auto

lemma example_disable:
  "fst (disableWorkflows example_env example_config example_report False stale_world) = Inr example_manifest"
  by (simp add: disableWorkflows_def ensureDir_def example_env_fields example_report_repositories
        example_repository flagged_ci_flagged disableWorkflow_def addEntry_def save_def Let_def
        ci_record_any_state example_manifest_def)

lemma stale_manifest:
  "manifests stale_world manifest_path
     = Some \<lparr> mf_timestamp = ''2024-01-01T00:00:00.000Z'', disabledWorkflows = [old_record] \<rparr>"
  by (simp add: stale_world_def)

lemma after_disable_manifest: "manifests after_disable manifest_path = Some example_manifest"
  unfolding after_disable_def disableWorkflows_Inr(1)[OF example_disable] by simp

lemma example_candidates:
  "restore_candidates exact_options (disabledWorkflows example_manifest) = [ci_record]"
  by (simp add: restore_candidates_def exact_options_def example_manifest_def ci_record_fields Let_def)

lemma exact_options_live: "opt_dryRun exact_options = Some False"
  by (simp add: exact_options_def)

lemma example_restore:
  "fst (restoreWorkflows example_env manifest_path exact_options after_disable) = None"
  "manifests after_restore manifest_path = Some (example_manifest \<lparr> disabledWorkflows := [] \<rparr>)"
proof -
  have ne: "restore_candidates exact_options (disabledWorkflows example_manifest) \<noteq> []"
    by (simp add: example_candidates)
  note live = restoreWorkflows_live[OF example_writes_succeed after_disable_manifest exact_options_live ne]
  show "fst (restoreWorkflows example_env manifest_path exact_options after_disable) = None"
    by (rule live(1))
  show "manifests after_restore manifest_path = Some (example_manifest \<lparr> disabledWorkflows := [] \<rparr>)"
    unfolding after_restore_def live(2) example_candidates
    by (simp add: example_manifest_def)
qed

text \<open>
  The claim as the specification words it (after the restore the manifest equals the
  manifest before the disable, up to timestamps) fails: before the disable transition
  the manifest holds the record of \<open>deploy.yml\<close>; the report flags \<open>ci.yml\<close>; the disable
  transition writes a manifest with the record of \<open>ci.yml\<close> only; the restore with filters
  matching exactly that record leaves a manifest with no record.
\<close>

theorem restore_does_not_recover_manifest:
  "map_option disabledWorkflows (manifests stale_world manifest_path) = Some [old_record]
   \<and> analyze example_config example_source = Some (Inr example_report)
   \<and> flagged example_report = [(''api'', flagged_ci)]
   \<and> fst (disableWorkflows example_env example_config example_report False stale_world)
       = Inr example_manifest
   \<and> manifests after_disable manifest_path = Some example_manifest
   \<and> disabledWorkflows example_manifest = [ci_record]
   \<and> restore_candidates exact_options (disabledWorkflows example_manifest) = [ci_record]
   \<and> fst (restoreWorkflows example_env manifest_path exact_options after_disable) = None
   \<and> map_option disabledWorkflows (manifests after_restore manifest_path) = Some []
   \<and> map_option disabledWorkflows (manifests after_restore manifest_path)
       \<noteq> map_option disabledWorkflows (manifests stale_world manifest_path)"
  using stale_manifest example_report_analyzed example_flagged example_disable
    after_disable_manifest example_candidates example_restore
  by (simp add: example_manifest_def)


subsection \<open>Reports with two flagged workflows\<close>

lemma source_with_runs:
  "runsInWindow example_config (source_with wfs) ''api'' wi = replicate 4 failed_run"
  by (simp add: runsInWindow_def getWorkflowRuns_def source_with_def example_source_def)

lemma analysis_with_flagged: "shouldDisable (analysis_with wfs wi)"
proof -
  have "shouldDisable (analyzeWorkflow example_config (source_with wfs) ''api'' wi) = True"
  proof (rule four_failures_analysis(3))
    show "length (runsInWindow example_config (source_with wfs) ''api'' wi) = 4"
      by (simp add: source_with_runs)
    show "\<forall>r \<in> set (runsInWindow example_config (source_with wfs) ''api'' wi).
            conclusion r = Some ''failure''"
      by (simp add: source_with_runs failed_run_def)
    show "failureThreshold example_config = 3" "failureRateThreshold example_config = 80"
      "workflowFileName (wf_path wi) \<notin> set (safelistWorkflows example_config)"
      by (simp_all add: example_config_def)
  qed
  then show ?thesis by (simp add: analysis_with_def)
qed

lemma analysis_with_path: "workflowPath (analysis_with wfs wi) = wf_path wi"
  by (simp add: analysis_with_def analyzeWorkflow_def Let_def)

lemma source_with_workflows: "getWorkflows (source_with wfs) ''api'' = wfs"
  by (simp add: getWorkflows_def source_with_def)

lemma repository_with:
  "ra_repository (analyzeRepository example_config (source_with wfs) ''api'') = ''api''"
  "workflows (analyzeRepository example_config (source_with wfs) ''api'') = map (analysis_with wfs) wfs"
  by (simp_all add: analyzeRepository_fields source_with_workflows analysis_with_def)

lemma report_with_repositories:
  assumes "wfs \<noteq> []"
  shows "repositories (report_with wfs) = [analyzeRepository example_config (source_with wfs) ''api'']"
  unfolding report_with_def report_repositories using assms by (simp add: repository_with)

lemma report_with_analyzed: "analyze example_config (source_with wfs) = Some (Inr (report_with wfs))"
proof -
  have "checkRateLimit (source_with wfs) = Inr ()"
    by (simp add: checkRateLimit_def source_with_def example_source_def)
  moreover have "getOrganizationRepositories example_config (source_with wfs) = Some (Inr [''api''])"
    by (rule one_repo_repositories) (simp add: source_with_def)
  ultimately show ?thesis
    unfolding report_with_def by (rule analyze_continues)
qed

lemma report_with_flagged:
  assumes "wfs \<noteq> []"
  shows "flagged (report_with wfs) = map (\<lambda>wi. (''api'', analysis_with wfs wi)) wfs"
  by (simp add: flagged_def report_with_repositories[OF assms] repository_with
        analysis_with_flagged comp_def)

lemma record_with_any_state:
  "disabled_record example_env example_config ''api'' (analysis_with wfs wi) w = record_with wfs wi"
  by (simp add: record_with_def disabled_record_def backup_location_def example_env_fields Let_def)

lemma record_with_fields:
  "dw_repository (record_with wfs wi) = ''api''"
  "originalPath (record_with wfs wi) = wf_path wi"
  "record_key (record_with wfs wi) = (''api'', analysis_with wfs wi)"
  by (simp_all add: record_with_def disabled_record_def Let_def analysis_with_path record_key_def)

lemma disable_two:
  "fst (disableWorkflows example_env example_config (report_with [wf1, wf2]) False stale_world)
     = Inr (manifest_with [wf1, wf2])"
  by (simp add: disableWorkflows_def ensureDir_def example_env_fields report_with_repositories
        repository_with analysis_with_flagged disableWorkflow_def addEntry_def save_def Let_def
        record_with_any_state manifest_with_def)

lemma disabled_with_manifest:
  "manifests (disabled_with [wf1, wf2]) manifest_path = Some (manifest_with [wf1, wf2])"
  unfolding disabled_with_def disableWorkflows_Inr(1)[OF disable_two] by simp

lemma ci_selected:
  "selected ''api'' ''.github/workflows/ci.yml'' (record_with wfs ci_workflow)"
  by (simp add: selected_def record_with_fields ci_workflow_def)

lemma yaml_selected:
  "selected ''api'' ''.github/workflows/ci.yml'' (record_with wfs yaml_workflow)"
  by (simp add: selected_def record_with_fields yaml_workflow_def sublist_Cons_right)

lemma deploy_not_selected:
  "\<not> selected ''api'' ''.github/workflows/ci.yml'' (record_with wfs deploy_workflow)"
  by (simp add: selected_def record_with_fields deploy_workflow_def sublist_Cons_right)

lemma ci_path_restore:
  "fst (restoreWorkflows example_env manifest_path ci_path_options (disabled_with [wf1, wf2])) = None"
  "manifests (snd (restoreWorkflows example_env manifest_path ci_path_options
                     (disabled_with [wf1, wf2]))) manifest_path
     = Some ((manifest_with [wf1, wf2])
               \<lparr> disabledWorkflows :=
                   filter (\<lambda>x. \<not> selected ''api'' ''.github/workflows/ci.yml'' x)
                     (disabledWorkflows (manifest_with [wf1, wf2])) \<rparr>)"
  unfolding ci_path_options_def
  by (rule restoreWorkflows_both_filters[OF example_writes_succeed disabled_with_manifest]; simp)+

lemma two_records:
  "disabledWorkflows (manifest_with two_workflows)
     = [record_with two_workflows ci_workflow, record_with two_workflows deploy_workflow]"
  by (simp add: manifest_with_def two_workflows_def)

lemma two_flagged:
  "flagged (report_with two_workflows)
     = [(''api'', analysis_with two_workflows ci_workflow),
        (''api'', analysis_with two_workflows deploy_workflow)]"
  by (simp add: report_with_flagged two_workflows_def)

lemma two_distinct: "distinct (flagged (report_with two_workflows))"
proof -
  have "workflowPath (analysis_with two_workflows ci_workflow)
          \<noteq> workflowPath (analysis_with two_workflows deploy_workflow)"
    by (simp add: analysis_with_path ci_workflow_def deploy_workflow_def)
  then have "analysis_with two_workflows ci_workflow \<noteq> analysis_with two_workflows deploy_workflow"
    by auto
  then show ?thesis by (simp add: two_flagged)
qed

text \<open>
  The workflow filter is a substring test: with the records of \<open>ci.yml\<close> and
  \<open>ci.yml.yaml\<close> in the manifest, the restore for \<open>api\<close> and the exact path of \<open>ci.yml\<close>
  removes both.
\<close>

lemma exact_path_removes_similar:
  "originalPath (record_with similar_workflows ci_workflow) = ''.github/workflows/ci.yml''
   \<and> originalPath (record_with similar_workflows yaml_workflow) = ''.github/workflows/ci.yml.yaml''
   \<and> manifests (disabled_with similar_workflows) manifest_path = Some (manifest_with similar_workflows)
   \<and> disabledWorkflows (manifest_with similar_workflows)
       = [record_with similar_workflows ci_workflow, record_with similar_workflows yaml_workflow]
   \<and> opt_repo ci_path_options = Some ''api''
   \<and> opt_workflow ci_path_options = Some ''.github/workflows/ci.yml''
   \<and> map_option disabledWorkflows
         (manifests (snd (restoreWorkflows example_env manifest_path ci_path_options
                            (disabled_with similar_workflows))) manifest_path) = Some []"
proof -
  have "disabledWorkflows (manifest_with similar_workflows)
          = [record_with similar_workflows ci_workflow, record_with similar_workflows yaml_workflow]"
    by (simp add: manifest_with_def similar_workflows_def)
  moreover have "manifests (disabled_with similar_workflows) manifest_path
                   = Some (manifest_with similar_workflows)"
    unfolding similar_workflows_def by (rule disabled_with_manifest)
  moreover have "map_option disabledWorkflows
         (manifests (snd (restoreWorkflows example_env manifest_path ci_path_options
                            (disabled_with similar_workflows))) manifest_path) = Some []"
    unfolding similar_workflows_def ci_path_restore(2)
    by (simp add: manifest_with_def ci_selected yaml_selected)
  ultimately show ?thesis
    by (simp add: record_with_fields ci_workflow_def yaml_workflow_def ci_path_options_def
          both_filters_def)
qed

text \<open>
  The witness: the report flags \<open>ci.yml\<close> and \<open>deploy.yml\<close> of \<open>api\<close>; the manifest written
  has their two records; the restore for \<open>api\<close> and the path of \<open>ci.yml\<close> selects the first
  record only and leaves the manifest with the record of \<open>deploy.yml\<close>.
\<close>

theorem disable_then_restore_witness:
  "writes_succeed example_env
   \<and> analyze example_config (source_with two_workflows) = Some (Inr (report_with two_workflows))
   \<and> distinct (flagged (report_with two_workflows))
   \<and> fst (disableWorkflows example_env example_config (report_with two_workflows) False stale_world)
       = Inr (manifest_with two_workflows)
   \<and> map record_key (disabledWorkflows (manifest_with two_workflows)) = flagged (report_with two_workflows)
   \<and> disabledWorkflows (manifest_with two_workflows)
       = [record_with two_workflows ci_workflow, record_with two_workflows deploy_workflow]
   \<and> selected ''api'' ''.github/workflows/ci.yml'' (record_with two_workflows ci_workflow)
   \<and> \<not> selected ''api'' ''.github/workflows/ci.yml'' (record_with two_workflows deploy_workflow)
   \<and> fst (restoreWorkflows example_env manifest_path
            (both_filters ''api'' ''.github/workflows/ci.yml'' None) (disabled_with two_workflows)) = None
   \<and> manifests (snd (restoreWorkflows example_env manifest_path
                        (both_filters ''api'' ''.github/workflows/ci.yml'' None)
                        (disabled_with two_workflows))) manifest_path
       = Some ((manifest_with two_workflows)
                 \<lparr> disabledWorkflows := [record_with two_workflows deploy_workflow] \<rparr>)
   \<and> length [record_with two_workflows deploy_workflow] + 1
       = length (disabledWorkflows (manifest_with two_workflows))"
proof -
  let ?m = "manifest_with two_workflows"
  let ?d = "record_with two_workflows ci_workflow"
  let ?w1 = "snd (disableWorkflows example_env example_config (report_with two_workflows) False stale_world)"
  let ?o = "both_filters ''api'' ''.github/workflows/ci.yml'' None"
  have dis: "fst (disableWorkflows example_env example_config (report_with two_workflows) False stale_world)
               = Inr ?m"
    unfolding two_workflows_def by (rule disable_two)
  obtain m where m: "fst (disableWorkflows example_env example_config (report_with two_workflows) False stale_world) = Inr m"
    and k: "map record_key (disabledWorkflows m) = flagged (report_with two_workflows)"
    and r: "\<forall>r f a. r \<noteq> [] \<and> f \<noteq> [] \<longrightarrow>
                 fst (restoreWorkflows example_env manifest_path (both_filters r f a) ?w1) = None
                 \<and> manifests (snd (restoreWorkflows example_env manifest_path (both_filters r f a) ?w1)) manifest_path
                     = Some (m \<lparr> disabledWorkflows :=
                                  filter (\<lambda>x. \<not> selected r f x) (disabledWorkflows m) \<rparr>)
                 \<and> (\<forall>d. d \<in> set (disabledWorkflows m) \<and> selected r f d
                          \<and> (\<forall>x \<in> set (disabledWorkflows m). selected r f x \<longrightarrow> x = d) \<longrightarrow>
                        filter (\<lambda>x. \<not> selected r f x) (disabledWorkflows m)
                          = filter (\<lambda>x. x \<noteq> d) (disabledWorkflows m)
                        \<and> (distinct (flagged (report_with two_workflows)) \<longrightarrow>
                             length (filter (\<lambda>x. x \<noteq> d) (disabledWorkflows m)) + 1
                               = length (disabledWorkflows m)))"
    using disable_then_restore[OF example_writes_succeed, of example_config "report_with two_workflows" stale_world]
    by blast
  have me: "m = ?m" using m dis by simp
  have ne: "''api'' \<noteq> [] \<and> ''.github/workflows/ci.yml'' \<noteq> []" by simp
  note inst = r[unfolded me, rule_format, OF ne, of None]
  have res1: "fst (restoreWorkflows example_env manifest_path ?o ?w1) = None"
    using inst by (rule conjunct1)
  have res2: "manifests (snd (restoreWorkflows example_env manifest_path ?o ?w1)) manifest_path
                = Some (?m \<lparr> disabledWorkflows :=
                          filter (\<lambda>x. \<not> selected ''api'' ''.github/workflows/ci.yml'' x) (disabledWorkflows ?m) \<rparr>)"
    using inst by (rule conjunct2[THEN conjunct1])
  have uniq: "?d \<in> set (disabledWorkflows ?m) \<and> selected ''api'' ''.github/workflows/ci.yml'' ?d
              \<and> (\<forall>x \<in> set (disabledWorkflows ?m). selected ''api'' ''.github/workflows/ci.yml'' x \<longrightarrow> x = ?d)"
    by (simp add: two_records ci_selected deploy_not_selected)
  have one: "filter (\<lambda>x. \<not> selected ''api'' ''.github/workflows/ci.yml'' x) (disabledWorkflows ?m)
               = filter (\<lambda>x. x \<noteq> ?d) (disabledWorkflows ?m)
             \<and> (distinct (flagged (report_with two_workflows)) \<longrightarrow>
                  length (filter (\<lambda>x. x \<noteq> ?d) (disabledWorkflows ?m)) + 1 = length (disabledWorkflows ?m))"
    using inst[THEN conjunct2, THEN conjunct2, rule_format, OF uniq] .
  have rest: "filter (\<lambda>x. \<not> selected ''api'' ''.github/workflows/ci.yml'' x) (disabledWorkflows ?m)
                = [record_with two_workflows deploy_workflow]"
    by (simp add: two_records ci_selected deploy_not_selected)
  have res2': "manifests (snd (restoreWorkflows example_env manifest_path ?o (disabled_with two_workflows))) manifest_path
                = Some (?m \<lparr> disabledWorkflows := [record_with two_workflows deploy_workflow] \<rparr>)"
    using res2 unfolding rest disabled_with_def .
  have res1': "fst (restoreWorkflows example_env manifest_path ?o (disabled_with two_workflows)) = None"
    using res1 unfolding disabled_with_def .
  have len: "length [record_with two_workflows deploy_workflow] + 1 = length (disabledWorkflows ?m)"
    using one two_distinct unfolding rest[symmetric] by simp
  have key: "map record_key (disabledWorkflows ?m) = flagged (report_with two_workflows)"
    using k me by simp
  show ?thesis
    using example_writes_succeed report_with_analyzed[of two_workflows] two_distinct dis key
      two_records ci_selected[of two_workflows] deploy_not_selected[of two_workflows] res1' res2' len
    by (intro conjI)
qed

end
